theory Spec2Isabelle
  imports Main "HOL-Library.Word" "HOL-Library.Multiset"
begin

unbundle bit_operations_syntax

section \<open>Data model of Serializer.h\<close>

text \<open>
  Memory is modelled as lists of bytes. A buffer (\<^verbatim>\<open>uint8_t *buffer\<close>) and an object
  (\<^verbatim>\<open>struct_name *obj\<close>) are each the list of the bytes of the array or struct the pointer
  points into; the length of the list is the size of that array or struct.
\<close>

type_synonym byte = "8 word"

text \<open>
  \<^verbatim>\<open>typedef struct { uint32_t type_id; uint16_t offset; uint16_t size; } Serializer_Field_Meta_t;\<close>
  (the field \<^verbatim>\<open>size\<close> is called \<open>size_f\<close>, since \<open>size\<close> is a constant of HOL).
\<close>

record Serializer_Field_Meta_t =
  type_id :: "32 word"
  offset :: "16 word"
  size_f :: "16 word"

datatype Deserializer_Error_t =
  SERIALIZER_DESERIALIZER_ERROR_NONE
  | SERIALIZER_DESERIALIZER_ERROR_STREAM_ID_MISMATCH

text \<open>
  One line \<^verbatim>\<open>X(enable, id, type, name)\<close> of a field list. The compiler supplies
  \<^verbatim>\<open>offsetof(SERIALIZER_STRUCT_NAME, name)\<close> and \<^verbatim>\<open>sizeof(type)\<close>; they are taken as given.
\<close>

record field_decl =
  enable :: bool
  field_id :: int
  offsetof_name :: nat
  sizeof_type :: nat

text \<open>
  What one use of \<^verbatim>\<open>SERIALIZER_CREATE_STRUCT(struct_name, struct_fields, stream_id)\<close> fixes
  for the functions it generates: the table \<^verbatim>\<open>struct_name##_meta\<close>,
  \<^verbatim>\<open>sizeof(struct_name)\<close> and \<^verbatim>\<open>stream_id\<close>.
\<close>

record struct_inst =
  meta :: "Serializer_Field_Meta_t list"
  sizeof_struct :: nat
  stream_id :: "32 word"

text \<open>
  \<^verbatim>\<open>#define SERIALIZER_META_FIELD_ENABLE(id, type, name) {id, offsetof(SERIALIZER_STRUCT_NAME, name), sizeof(type)},\<close>
  \<^verbatim>\<open>#define SERIALIZER_META_FIELD_DISABLE(id, type, name) /* metadata disabled */\<close>
  The initialiser converts \<^verbatim>\<open>id\<close> to \<^verbatim>\<open>uint32_t\<close> and the two sizes to \<^verbatim>\<open>uint16_t\<close>.
\<close>

definition SERIALIZER_META_FIELD :: "field_decl \<Rightarrow> Serializer_Field_Meta_t list" where
  "SERIALIZER_META_FIELD d =
     (if enable d
      then [\<lparr>type_id = word_of_int (field_id d), offset = word_of_nat (offsetof_name d),
             size_f = word_of_nat (sizeof_type d)\<rparr>]
      else [])"

text \<open>
  \<^verbatim>\<open>static const Serializer_Field_Meta_t struct_name##_meta[] = {struct_fields(SERIALIZER_META_FIELD)};\<close>
\<close>

definition SERIALIZER_CREATE_META_IMPL :: "field_decl list \<Rightarrow> Serializer_Field_Meta_t list" where
  "SERIALIZER_CREATE_META_IMPL struct_fields = concat (map SERIALIZER_META_FIELD struct_fields)"

section \<open>Object representation of the integers\<close>

text \<open>
  \<^verbatim>\<open>memcpy\<close> moves the object representation of a \<^verbatim>\<open>uint32_t\<close> and of a
  \<^verbatim>\<open>Serializer_Field_Meta_t\<close>. The host is taken to be little-endian (the source names its
  local \<^verbatim>\<open>stream_id_le\<close>), and the struct of 4 + 2 + 2 bytes has no padding.
\<close>

definition bytes_u16 :: "16 word \<Rightarrow> byte list" where
  "bytes_u16 w = [ucast w, ucast (drop_bit 8 w)]"

definition bytes_u32 :: "32 word \<Rightarrow> byte list" where
  "bytes_u32 w = [ucast w, ucast (drop_bit 8 w), ucast (drop_bit 16 w), ucast (drop_bit 24 w)]"

definition u16_of_bytes :: "byte list \<Rightarrow> 16 word" where
  "u16_of_bytes bs = ucast (bs ! 0) OR push_bit 8 (ucast (bs ! 1))"

definition u32_of_bytes :: "byte list \<Rightarrow> 32 word" where
  "u32_of_bytes bs = ucast (bs ! 0) OR push_bit 8 (ucast (bs ! 1))
       OR push_bit 16 (ucast (bs ! 2)) OR push_bit 24 (ucast (bs ! 3))"

definition bytes_meta_field :: "Serializer_Field_Meta_t \<Rightarrow> byte list" where
  "bytes_meta_field f = bytes_u32 (type_id f) @ bytes_u16 (offset f) @ bytes_u16 (size_f f)"

definition meta_field_of_bytes :: "byte list \<Rightarrow> Serializer_Field_Meta_t" where
  "meta_field_of_bytes bs =
     \<lparr>type_id = u32_of_bytes (take 4 bs), offset = u16_of_bytes (take 2 (drop 4 bs)),
      size_f = u16_of_bytes (take 2 (drop 6 bs))\<rparr>"

definition bytes_meta :: "Serializer_Field_Meta_t list \<Rightarrow> byte list" where
  "bytes_meta fs = concat (map bytes_meta_field fs)"

section \<open>memcpy\<close>

text \<open>
  \<open>memcpy dst d src s n\<close> is \<^verbatim>\<open>memcpy(dst + d, src + s, n)\<close>: the new content of \<open>dst\<close>.
  C leaves an access outside either object undefined; the model returns \<open>None\<close> there, and
  every caller passes \<open>None\<close> on. \<open>load src s n\<close> is the \<^verbatim>\<open>memcpy\<close> of \<open>n\<close> bytes at
  \<open>src + s\<close> into a local variable.
\<close>

definition memcpy :: "byte list \<Rightarrow> nat \<Rightarrow> byte list \<Rightarrow> nat \<Rightarrow> nat \<Rightarrow> byte list option" where
  "memcpy dst d src s n =
     (if d + n \<le> length dst \<and> s + n \<le> length src
      then Some (take d dst @ take n (drop s src) @ drop (d + n) dst)
      else None)"

definition load :: "byte list \<Rightarrow> nat \<Rightarrow> nat \<Rightarrow> byte list option" where
  "load src s n = (if s + n \<le> length src then Some (take n (drop s src)) else None)"

section \<open>The generated functions\<close>

text \<open>
  \<^verbatim>\<open>const uint32_t meta_size = sizeof(struct_name##_meta) / sizeof(Serializer_Field_Meta_t);\<close>
  The quotient is a \<^verbatim>\<open>size_t\<close>; the conversion to \<^verbatim>\<open>uint32_t\<close> reduces it modulo \<open>2 ^ 32\<close>.
\<close>

definition meta_size :: "struct_inst \<Rightarrow> 32 word" where
  "meta_size T = word_of_nat (length (meta T))"

definition sizeof_meta :: "struct_inst \<Rightarrow> nat" where
  "sizeof_meta T = 8 * length (meta T)"

text \<open>
  \<^verbatim>\<open>Serialize_##struct_name(uint8_t *buffer, const struct_name *const obj)\<close>: four
  \<^verbatim>\<open>memcpy\<close> calls, \<^verbatim>\<open>buffer\<close> advanced by 4, by 4 and by \<^verbatim>\<open>sizeof(struct_name##_meta)\<close>
  between them. The result is the new content of the buffer.
\<close>

definition Serialize :: "struct_inst \<Rightarrow> byte list \<Rightarrow> byte list \<Rightarrow> byte list option" where
  "Serialize T buffer obj =
     (case memcpy buffer 0 (bytes_u32 (stream_id T)) 0 4 of None \<Rightarrow> None | Some b1 \<Rightarrow>
      case memcpy b1 4 (bytes_u32 (meta_size T)) 0 4 of None \<Rightarrow> None | Some b2 \<Rightarrow>
      case memcpy b2 8 (bytes_meta (meta T)) 0 (sizeof_meta T) of None \<Rightarrow> None | Some b3 \<Rightarrow>
      memcpy b3 (8 + sizeof_meta T) obj 0 (sizeof_struct T))"

text \<open>
  \<^verbatim>\<open>Serializer_Get_##struct_name##_Meta_Field_By_ID(uint32_t type_id)\<close>:
  \<^verbatim>\<open>for (uint32_t i = 0; i < meta_size; i++) if (struct_name##_meta[i].type_id == type_id) return &struct_name##_meta[i]; return NULL;\<close>
  The table is constant, so the pointer returned is modelled by the entry it points to and
  \<^verbatim>\<open>NULL\<close> by \<open>None\<close>. The counter stays below \<^verbatim>\<open>meta_size\<close>, so \<^verbatim>\<open>i++\<close> never wraps.
\<close>

function Get_Meta_Field_By_ID_from ::
  "struct_inst \<Rightarrow> 32 word \<Rightarrow> nat \<Rightarrow> Serializer_Field_Meta_t option" where
  "Get_Meta_Field_By_ID_from T tid i =
     (if i < unat (meta_size T)
      then (if type_id (meta T ! i) = tid then Some (meta T ! i)
            else Get_Meta_Field_By_ID_from T tid (i + 1))
      else None)"
  by pat_completeness auto
termination
  by (relation "measure (\<lambda>(T, tid, i). unat (meta_size T) - i)") auto

definition Get_Meta_Field_By_ID :: "struct_inst \<Rightarrow> 32 word \<Rightarrow> Serializer_Field_Meta_t option" where
  "Get_Meta_Field_By_ID T tid = Get_Meta_Field_By_ID_from T tid 0"

text \<open>
  The loop of \<^verbatim>\<open>Deserialize_##struct_name\<close>, from iteration \<open>i\<close> on, with the pointers as
  offsets into the buffer:
  \<^verbatim>\<open>memcpy(&received_meta_field, meta_field_ptr, sizeof(Serializer_Field_Meta_t));\<close>
  \<^verbatim>\<open>our_meta_field = Serializer_Get_..._Meta_Field_By_ID(received_meta_field.type_id);\<close>
  \<^verbatim>\<open>if (our_meta_field != NULL) memcpy((uint8_t *)obj + our_meta_field->offset, received_obj_ptr + received_meta_field.offset, our_meta_field->size);\<close>
  \<^verbatim>\<open>meta_field_ptr += sizeof(Serializer_Field_Meta_t);\<close>
  The result is the new content of the object.
\<close>

function Deserialize_from ::
  "struct_inst \<Rightarrow> byte list \<Rightarrow> nat \<Rightarrow> nat \<Rightarrow> nat \<Rightarrow> nat \<Rightarrow> byte list \<Rightarrow> byte list option" where
  "Deserialize_from T buffer received_obj_ptr received_meta_size meta_field_ptr i obj =
     (if i < received_meta_size
      then (case load buffer meta_field_ptr 8 of None \<Rightarrow> None | Some bs \<Rightarrow>
              let received_meta_field = meta_field_of_bytes bs in
              (case Get_Meta_Field_By_ID T (type_id received_meta_field) of
                 None \<Rightarrow>
                   Deserialize_from T buffer received_obj_ptr received_meta_size
                     (meta_field_ptr + 8) (i + 1) obj
               | Some our_meta_field \<Rightarrow>
                   (case memcpy obj (unat (offset our_meta_field)) buffer
                           (received_obj_ptr + unat (offset received_meta_field))
                           (unat (size_f our_meta_field)) of
                      None \<Rightarrow> None
                    | Some obj' \<Rightarrow>
                        Deserialize_from T buffer received_obj_ptr received_meta_size
                          (meta_field_ptr + 8) (i + 1) obj')))
      else Some obj)"
  by pat_completeness auto
termination
  by (relation "measure (\<lambda>(T, buffer, p, n, m, i, obj). n - i)") auto

text \<open>
  \<^verbatim>\<open>Deserialize_##struct_name(const uint8_t *buffer, struct_name *const obj)\<close>: the error code
  returned and the new content of the object. \<^verbatim>\<open>received_obj_ptr\<close> is
  \<^verbatim>\<open>buffer + 8 + sizeof(Serializer_Field_Meta_t) * received_meta_size\<close>, a product of
  \<^verbatim>\<open>size_t\<close> (64 bits) that does not wrap.
\<close>

definition Deserialize ::
  "struct_inst \<Rightarrow> byte list \<Rightarrow> byte list \<Rightarrow> (Deserializer_Error_t \<times> byte list) option" where
  "Deserialize T buffer obj =
     (case load buffer 0 4 of None \<Rightarrow> None | Some sb \<Rightarrow>
        if u32_of_bytes sb \<noteq> stream_id T
        then Some (SERIALIZER_DESERIALIZER_ERROR_STREAM_ID_MISMATCH, obj)
        else (case load buffer 4 4 of None \<Rightarrow> None | Some mb \<Rightarrow>
                let received_meta_size = unat (u32_of_bytes mb) in
                (case Deserialize_from T buffer (8 + 8 * received_meta_size) received_meta_size 8 0 obj of
                   None \<Rightarrow> None
                 | Some obj' \<Rightarrow> Some (SERIALIZER_DESERIALIZER_ERROR_NONE, obj'))))"

declare Get_Meta_Field_By_ID_from.simps [simp del]
declare Deserialize_from.simps [simp del]

section \<open>Notions used to state the properties\<close>

text \<open>The number of bytes of a frame: two words, the table, the image of the struct.\<close>

definition frame_size :: "struct_inst \<Rightarrow> nat" where
  "frame_size T = 8 + 8 * length (meta T) + sizeof_struct T"

text \<open>The \<open>n\<close> descriptors stored in a buffer from byte 8 on, in the order of the buffer.\<close>

definition received_meta :: "byte list \<Rightarrow> nat \<Rightarrow> Serializer_Field_Meta_t list" where
  "received_meta buffer n = map (\<lambda>i. meta_field_of_bytes (take 8 (drop (8 + 8 * i) buffer))) [0..<n]"

text \<open>One iteration of the loop for a received descriptor \<open>r\<close>, and the iterations for a list.\<close>

definition copy_field ::
  "struct_inst \<Rightarrow> byte list \<Rightarrow> nat \<Rightarrow> Serializer_Field_Meta_t \<Rightarrow> byte list \<Rightarrow> byte list option" where
  "copy_field T buffer rp r obj =
     (case Get_Meta_Field_By_ID T (type_id r) of
        None \<Rightarrow> Some obj
      | Some our \<Rightarrow> memcpy obj (unat (offset our)) buffer (rp + unat (offset r)) (unat (size_f our)))"

fun copy_fields ::
  "struct_inst \<Rightarrow> byte list \<Rightarrow> nat \<Rightarrow> Serializer_Field_Meta_t list \<Rightarrow> byte list \<Rightarrow> byte list option" where
  "copy_fields T buffer rp [] obj = Some obj"
| "copy_fields T buffer rp (r # rs) obj =
     (case copy_field T buffer rp r obj of None \<Rightarrow> None
      | Some obj' \<Rightarrow> copy_fields T buffer rp rs obj')"

text \<open>The byte positions a descriptor covers, the bytes of an object at a descriptor, and
  descriptors that share no byte position.\<close>

definition covers :: "Serializer_Field_Meta_t \<Rightarrow> nat \<Rightarrow> bool" where
  "covers f i \<longleftrightarrow> unat (offset f) \<le> i \<and> i < unat (offset f) + unat (size_f f)"

definition field_bytes :: "byte list \<Rightarrow> Serializer_Field_Meta_t \<Rightarrow> byte list" where
  "field_bytes obj f = take (unat (size_f f)) (drop (unat (offset f)) obj)"

definition disjoint_fields :: "Serializer_Field_Meta_t \<Rightarrow> Serializer_Field_Meta_t \<Rightarrow> bool" where
  "disjoint_fields f g \<longleftrightarrow>
     unat (offset f) + unat (size_f f) \<le> unat (offset g)
     \<or> unat (offset g) + unat (size_f g) \<le> unat (offset f)"

text \<open>The members of a C struct do not overlap, so the descriptors that
  \<^verbatim>\<open>offsetof\<close> and \<^verbatim>\<open>sizeof\<close> yield for different members are disjoint.\<close>

definition non_overlapping :: "struct_inst \<Rightarrow> bool" where
  "non_overlapping T \<longleftrightarrow> (\<forall>f\<in>set (meta T). \<forall>g\<in>set (meta T). f \<noteq> g \<longrightarrow> disjoint_fields f g)"

text \<open>The invariant of a schema: the ids are unique and every descriptor lies inside the
  struct; the table has fewer than \<open>2 ^ 32\<close> entries, so that \<^verbatim>\<open>meta_size\<close> is its length.\<close>

definition valid_schema :: "struct_inst \<Rightarrow> bool" where
  "valid_schema T \<longleftrightarrow>
     distinct (map type_id (meta T))
     \<and> (\<forall>f\<in>set (meta T). unat (offset f) + unat (size_f f) \<le> sizeof_struct T)
     \<and> length (meta T) < 2 ^ 32"

text \<open>The bytes of a frame with stream id \<open>sid\<close>, table \<open>rs\<close> and the bytes
  \<open>payload\<close> after the table.\<close>

definition frame :: "32 word \<Rightarrow> Serializer_Field_Meta_t list \<Rightarrow> byte list \<Rightarrow> byte list" where
  "frame sid rs payload = bytes_u32 sid @ bytes_u32 (word_of_nat (length rs)) @ bytes_meta rs @ payload"

text \<open>
  What \<open>Deserialize\<close> reads from a buffer before its loop: the count at byte 4, the
  position of the payload behind the table, and the descriptors of the table.
\<close>

definition received_meta_size :: "byte list \<Rightarrow> nat" where
  "received_meta_size buffer = unat (u32_of_bytes (take 4 (drop 4 buffer)))"

definition received_obj_ptr :: "byte list \<Rightarrow> nat" where
  "received_obj_ptr buffer = 8 + 8 * received_meta_size buffer"

definition received :: "byte list \<Rightarrow> Serializer_Field_Meta_t list" where
  "received buffer = received_meta buffer (received_meta_size buffer)"

text \<open>
  One iteration on a state that is \<open>None\<close> once an access was out of bounds.
\<close>

definition copy_step ::
  "struct_inst \<Rightarrow> byte list \<Rightarrow> nat \<Rightarrow> Serializer_Field_Meta_t \<Rightarrow> byte list option \<Rightarrow> byte list option" where
  "copy_step T b rp r acc = (case acc of None \<Rightarrow> None | Some obj \<Rightarrow> copy_field T b rp r obj)"

section \<open>The instances of example.c and test data\<close>

text \<open>
  \<^verbatim>\<open>#define STREAM_1_FEILDS(X) X(ENABLE, 1, int32_t, field1) X(DISABLE, 2, float, field2) X(ENABLE, 3, uint8_array_20, field3)\<close>
  \<^verbatim>\<open>SERIALIZER_CREATE_TYPEDEF_STRUCT(Stream1_Struct_t, STREAM_1_FEILDS, 1u)\<close>
  The struct is an \<^verbatim>\<open>int32_t\<close> at offset 0 and a \<^verbatim>\<open>char[20]\<close> at offset 4, 24 bytes in all.
  The disabled line yields no member and no descriptor; its offset is never computed.
\<close>

definition STREAM_1_FEILDS :: "field_decl list" where
  "STREAM_1_FEILDS =
     [\<lparr>enable = True, field_id = 1, offsetof_name = 0, sizeof_type = 4\<rparr>,
      \<lparr>enable = False, field_id = 2, offsetof_name = 0, sizeof_type = 4\<rparr>,
      \<lparr>enable = True, field_id = 3, offsetof_name = 4, sizeof_type = 20\<rparr>]"

definition Stream1_Struct_t :: struct_inst where
  "Stream1_Struct_t =
     \<lparr>meta = SERIALIZER_CREATE_META_IMPL STREAM_1_FEILDS, sizeof_struct = 24, stream_id = 1\<rparr>"

text \<open>\<^verbatim>\<open>obj1.field1 = 42; strcpy(obj1.field3, "Hello, World!");\<close> on a zeroed struct,
  the zeroed \<^verbatim>\<open>obj2\<close>, and a buffer of 50 bytes.\<close>

definition obj1 :: "byte list" where
  "obj1 = [42, 0, 0, 0,
           0x48, 0x65, 0x6C, 0x6C, 0x6F, 0x2C, 0x20, 0x57, 0x6F, 0x72, 0x6C, 0x64, 0x21, 0, 0, 0, 0, 0, 0, 0]"

definition obj2 :: "byte list" where
  "obj2 = [0, 0, 0, 0, 0, 0, 0, 0, 0, 0, 0, 0, 0, 0, 0, 0, 0, 0, 0, 0, 0, 0, 0, 0]"

definition buffer0 :: "byte list" where
  "buffer0 = [0, 0, 0, 0, 0, 0, 0, 0, 0, 0, 0, 0, 0, 0, 0, 0, 0, 0, 0, 0, 0, 0, 0, 0, 0,
              0, 0, 0, 0, 0, 0, 0, 0, 0, 0, 0, 0, 0, 0, 0, 0, 0, 0, 0, 0, 0, 0, 0, 0xEE, 0xFF]"

text \<open>A struct \<^verbatim>\<open>{ uint8_t a; uint16_t b; }\<close> with ids 1 and 2: byte 1 is padding.\<close>

definition Padded_Struct_t :: struct_inst where
  "Padded_Struct_t =
     \<lparr>meta = [\<lparr>type_id = 1, offset = 0, size_f = 1\<rparr>, \<lparr>type_id = 2, offset = 2, size_f = 2\<rparr>],
      sizeof_struct = 4, stream_id = 1\<rparr>"

text \<open>
  A struct \<^verbatim>\<open>{ uint8_t a; }\<close> with id 1, the same field declared two bytes wide, the frame
  that \<open>Serialize\<close> produces for the first with \<^verbatim>\<open>a = 0xAA\<close>, and a frame whose table
  names id 1 twice, at payload offsets 0 and 1.
\<close>

definition Old_Struct_t :: struct_inst where
  "Old_Struct_t = \<lparr>meta = [\<lparr>type_id = 1, offset = 0, size_f = 1\<rparr>], sizeof_struct = 1, stream_id = 1\<rparr>"

definition Wide_Struct_t :: struct_inst where
  "Wide_Struct_t = \<lparr>meta = [\<lparr>type_id = 1, offset = 0, size_f = 2\<rparr>], sizeof_struct = 2, stream_id = 1\<rparr>"

definition frame_old :: "byte list" where
  "frame_old = [1, 0, 0, 0, 1, 0, 0, 0, 1, 0, 0, 0, 0, 0, 1, 0, 0xAA]"

definition frame_dup :: "byte list" where
  "frame_dup = [1, 0, 0, 0, 2, 0, 0, 0, 1, 0, 0, 0, 0, 0, 1, 0, 1, 0, 0, 0, 1, 0, 1, 0, 0xAA, 0xBB]"

text \<open>
  A field list that gives both members of a struct the id 1:
  \<^verbatim>\<open>X(ENABLE, 1, int32_t, a) X(ENABLE, 1, int32_t, b)\<close>, with stream id 1.
\<close>

definition DUP_FIELDS :: "field_decl list" where
  "DUP_FIELDS =
     [\<lparr>enable = True, field_id = 1, offsetof_name = 0, sizeof_type = 4\<rparr>,
      \<lparr>enable = True, field_id = 1, offsetof_name = 4, sizeof_type = 4\<rparr>]"

definition Dup_Struct_t :: struct_inst where
  "Dup_Struct_t = \<lparr>meta = SERIALIZER_CREATE_META_IMPL DUP_FIELDS, sizeof_struct = 8, stream_id = 1\<rparr>"

section \<open>Integers and descriptors survive their object representation\<close>

lemma u16_roundtrip: "u16_of_bytes (bytes_u16 w) = w"
  unfolding u16_of_bytes_def bytes_u16_def
  by (rule bit_word_eqI) (auto simp: bit_simps)

lemma u32_roundtrip: "u32_of_bytes (bytes_u32 w) = w"
proof (rule bit_word_eqI)
  fix n :: nat
  assume n: "n < LENGTH(32)"
  then consider "n < 8" | "8 \<le> n \<and> n < 16" | "16 \<le> n \<and> n < 24" | "24 \<le> n \<and> n < 32"
    by fastforce
  then show "bit (u32_of_bytes (bytes_u32 w)) n = bit w n"
    unfolding u32_of_bytes_def bytes_u32_def
    by cases (auto simp: bit_simps)
qed

lemma length_bytes_u32 [simp]: "length (bytes_u32 w) = 4"
  by (simp add: bytes_u32_def)

lemma length_bytes_u16 [simp]: "length (bytes_u16 w) = 2"
  by (simp add: bytes_u16_def)

lemma length_bytes_meta_field [simp]: "length (bytes_meta_field f) = 8"
  by (simp add: bytes_meta_field_def)

lemma length_bytes_meta [simp]: "length (bytes_meta fs) = 8 * length fs"
  by (induction fs) (simp_all add: bytes_meta_def)

lemma meta_field_roundtrip: "meta_field_of_bytes (bytes_meta_field f @ rest) = f"
  by (simp add: meta_field_of_bytes_def bytes_meta_field_def u32_roundtrip u16_roundtrip)

section \<open>memcpy on lists\<close>

lemma memcpy_length: "memcpy dst d src s n = Some out \<Longrightarrow> length out = length dst"
  by (auto simp: memcpy_def split: if_splits)

lemma memcpy_nth:
  assumes "memcpy dst d src s n = Some out" and "i < length dst"
  shows "out ! i = (if d \<le> i \<and> i < d + n then src ! (s + (i - d)) else dst ! i)"
proof -
  from assms(1) have b: "d + n \<le> length dst" "s + n \<le> length src"
    and out: "out = take d dst @ take n (drop s src) @ drop (d + n) dst"
    by (auto simp: memcpy_def split: if_splits)
  have l1: "length (take d dst) = d" and l2: "length (take n (drop s src)) = n"
    using b by simp_all
  consider "i < d" | "d \<le> i" "i < d + n" | "d + n \<le> i" by linarith
  then show ?thesis
  proof cases
    case 1
    then show ?thesis using assms(2) by (simp add: out nth_append)
  next
    case 2
    then have "i - d < n" by linarith
    with 2 have "out ! i = take n (drop s src) ! (i - d)"
      using l1 l2 by (simp add: out nth_append del: length_take)
    with 2 b show ?thesis by simp
  next
    case 3
    then have "\<not> i < d" "\<not> i - d < n" by linarith+
    then have "out ! i = drop (d + n) dst ! (i - d - n)"
      using l1 l2 by (simp add: out nth_append del: length_take)
    with 3 b assms(2) show ?thesis by simp
  qed
qed

lemma memcpy_at_end:
  "memcpy (pre @ rest) (length pre) src 0 (length src) =
     (if length src \<le> length rest then Some (pre @ src @ drop (length src) rest) else None)"
  by (simp add: memcpy_def)

section \<open>Serialize\<close>

lemma Serialize_layout:
  assumes "8 + sizeof_meta T + sizeof_struct T \<le> length buffer"
    and "length obj = sizeof_struct T"
  shows "Serialize T buffer obj =
     Some (bytes_u32 (stream_id T) @ bytes_u32 (meta_size T) @ bytes_meta (meta T) @ obj
           @ drop (8 + sizeof_meta T + sizeof_struct T) buffer)"
proof -
  let ?A = "bytes_u32 (stream_id T)" and ?B = "bytes_u32 (meta_size T)" and ?C = "bytes_meta (meta T)"
  have 1: "memcpy buffer 0 ?A 0 4 = Some (?A @ drop 4 buffer)"
    using assms(1) memcpy_at_end [of "[]" buffer ?A] by simp
  have 2: "memcpy (?A @ drop 4 buffer) 4 ?B 0 4 = Some (?A @ ?B @ drop 8 buffer)"
    using assms(1) memcpy_at_end [of ?A "drop 4 buffer" ?B] by simp
  have 3: "memcpy (?A @ ?B @ drop 8 buffer) 8 ?C 0 (sizeof_meta T)
             = Some (?A @ ?B @ ?C @ drop (8 + sizeof_meta T) buffer)"
    using assms(1) memcpy_at_end [of "?A @ ?B" "drop 8 buffer" ?C]
    by (simp add: sizeof_meta_def add.commute)
  have 4: "memcpy (?A @ ?B @ ?C @ drop (8 + sizeof_meta T) buffer) (8 + sizeof_meta T) obj 0 (sizeof_struct T)
             = Some (?A @ ?B @ ?C @ obj @ drop (8 + sizeof_meta T + sizeof_struct T) buffer)"
    using assms memcpy_at_end [of "?A @ ?B @ ?C" "drop (8 + sizeof_meta T) buffer" obj]
    by (simp add: sizeof_meta_def add.commute)
  show ?thesis
    by (simp add: Serialize_def 1 2 3 4)
qed

section \<open>The lookup and the loop as list functions\<close>

lemma unat_meta_size_le: "unat (meta_size T) \<le> length (meta T)"
  by (simp add: meta_size_def unat_of_nat)

lemma unat_meta_size: "length (meta T) < 2 ^ 32 \<Longrightarrow> unat (meta_size T) = length (meta T)"
  by (simp add: meta_size_def unat_of_nat)

lemma Get_from_find:
  "i \<le> unat (meta_size T) \<Longrightarrow>
   Get_Meta_Field_By_ID_from T tid i
     = find (\<lambda>f. type_id f = tid) (drop i (take (unat (meta_size T)) (meta T)))"
proof (induction T tid i rule: Get_Meta_Field_By_ID_from.induct)
  case (1 T tid i)
  show ?case
  proof (cases "i < unat (meta_size T)")
    case True
    then have "i < length (take (unat (meta_size T)) (meta T))"
      using unat_meta_size_le [of T] by simp
    then have d: "drop i (take (unat (meta_size T)) (meta T))
        = meta T ! i # drop (i + 1) (take (unat (meta_size T)) (meta T))"
      using True by (simp add: Cons_nth_drop_Suc [symmetric])
    show ?thesis
      using True 1 by (subst Get_Meta_Field_By_ID_from.simps) (simp add: d)
  next
    case False
    with 1(2) show ?thesis
      by (subst Get_Meta_Field_By_ID_from.simps) simp
  qed
qed

lemma Get_find:
  "length (meta T) < 2 ^ 32 \<Longrightarrow>
   Get_Meta_Field_By_ID T tid = find (\<lambda>f. type_id f = tid) (meta T)"
  using Get_from_find [of 0 T tid] by (simp add: Get_Meta_Field_By_ID_def unat_meta_size)

lemma received_meta_nth:
  "i < n \<Longrightarrow> received_meta buffer n ! i = meta_field_of_bytes (take 8 (drop (8 + 8 * i) buffer))"
  by (simp add: received_meta_def)

lemma length_received_meta [simp]: "length (received_meta buffer n) = n"
  by (simp add: received_meta_def)

lemma Deserialize_from_copy_fields:
  "i \<le> n \<Longrightarrow>
   Deserialize_from T buffer rp n (8 + 8 * i) i obj =
     (if i < n \<and> length buffer < 8 + 8 * n then None
      else copy_fields T buffer rp (drop i (received_meta buffer n)) obj)"
proof (induction k \<equiv> "n - i" arbitrary: i obj)
  case 0
  then show ?case
    by (subst Deserialize_from.simps) simp
next
  case (Suc k)
  then have lt: "i < n" and k: "k = n - (i + 1)" and le: "i + 1 \<le> n" by linarith+
  note IH = Suc(1) [OF k le]
  show ?case
  proof (cases "load buffer (8 + 8 * i) 8")
    case None
    then have "length buffer < 8 + 8 * n" using lt by (auto simp: load_def split: if_splits)
    with None lt show ?thesis
      by (subst Deserialize_from.simps) simp
  next
    case (Some bs)
    then have bs: "bs = take 8 (drop (8 + 8 * i) buffer)" and len: "8 + 8 * i + 8 \<le> length buffer"
      by (auto simp: load_def split: if_splits)
    have d: "drop i (received_meta buffer n) = meta_field_of_bytes bs # drop (i + 1) (received_meta buffer n)"
      using lt by (simp add: Cons_nth_drop_Suc [symmetric] received_meta_nth bs)
    have short: "length buffer < 8 + 8 * n \<Longrightarrow> i + 1 < n"
      using len by linarith
    have IH': "Deserialize_from T buffer rp n (16 + 8 * i) (Suc i) obj' =
        (if Suc i < n \<and> length buffer < 8 + 8 * n then None
         else copy_fields T buffer rp (drop (Suc i) (received_meta buffer n)) obj')" for obj'
      using IH [of obj'] by simp
    have tail: "length buffer < 8 + 8 * n \<Longrightarrow>
        Deserialize_from T buffer rp n (16 + 8 * i) (Suc i) obj' = None" for obj'
      using short by (simp add: IH')
    have tail2: "\<not> length buffer < 8 + 8 * n \<Longrightarrow>
        Deserialize_from T buffer rp n (16 + 8 * i) (Suc i) obj' =
          copy_fields T buffer rp (drop (Suc i) (received_meta buffer n)) obj'" for obj'
      by (simp add: IH')
    show ?thesis
    proof (cases "length buffer < 8 + 8 * n")
      case True
      then show ?thesis
        using lt Some
        by (subst Deserialize_from.simps) (simp add: tail Let_def split: option.splits)
    next
      case False
      then show ?thesis
        using lt Some
        by (subst Deserialize_from.simps)
           (simp add: tail2 d copy_field_def Let_def split: option.splits)
    qed
  qed
qed

section \<open>Facts about the lookup and the copies\<close>

lemma disjoint_fields_covers: "disjoint_fields f g \<Longrightarrow> covers f i \<Longrightarrow> \<not> covers g i"
  by (auto simp: disjoint_fields_def covers_def)

lemma find_SomeD: "find P xs = Some x \<Longrightarrow> x \<in> set xs \<and> P x"
  by (induction xs) (auto split: if_splits)

lemma Get_Some:
  assumes "Get_Meta_Field_By_ID T tid = Some our"
  shows "our \<in> set (meta T)" and "type_id our = tid"
proof -
  from assms have f: "find (\<lambda>f. type_id f = tid) (take (unat (meta_size T)) (meta T)) = Some our"
    using Get_from_find [of 0 T tid] by (simp add: Get_Meta_Field_By_ID_def)
  from find_SomeD [OF f] show "our \<in> set (meta T)" and "type_id our = tid"
    by (auto dest: in_set_takeD)
qed

lemma Get_None_iff:
  "length (meta T) < 2 ^ 32 \<Longrightarrow>
   Get_Meta_Field_By_ID T tid = None \<longleftrightarrow> tid \<notin> type_id ` set (meta T)"
  by (auto simp: Get_find find_None_iff)

lemma find_distinct_ids:
  "distinct (map type_id fs) \<Longrightarrow> f \<in> set fs \<Longrightarrow> find (\<lambda>g. type_id g = type_id f) fs = Some f"
  by (induction fs) (auto simp: image_iff)

lemma Get_distinct:
  "length (meta T) < 2 ^ 32 \<Longrightarrow> distinct (map type_id (meta T)) \<Longrightarrow> f \<in> set (meta T) \<Longrightarrow>
   Get_Meta_Field_By_ID T (type_id f) = Some f"
  by (simp add: Get_find find_distinct_ids)

lemma copy_field_length: "copy_field T b rp r obj = Some out \<Longrightarrow> length out = length obj"
  by (auto simp: copy_field_def memcpy_length split: option.splits)

lemma copy_fields_length: "copy_fields T b rp rs obj = Some out \<Longrightarrow> length out = length obj"
  by (induction rs arbitrary: obj) (auto simp: copy_field_length split: option.splits)

lemma copy_fields_append:
  "copy_fields T b rp (xs @ ys) obj =
     (case copy_fields T b rp xs obj of None \<Rightarrow> None | Some obj' \<Rightarrow> copy_fields T b rp ys obj')"
  by (induction xs arbitrary: obj) (auto split: option.splits)

lemma copy_field_nth:
  assumes "copy_field T b rp r obj = Some out" and "i < length obj"
  shows "out ! i =
     (case Get_Meta_Field_By_ID T (type_id r) of
        None \<Rightarrow> obj ! i
      | Some our \<Rightarrow> if covers our i then b ! (rp + unat (offset r) + (i - unat (offset our))) else obj ! i)"
  using assms
  by (auto simp: copy_field_def covers_def dest!: memcpy_nth [where i = i] split: option.splits)

lemma copy_fields_untouched:
  assumes "copy_fields T b rp rs obj = Some out" and "i < length obj"
    and "\<forall>r\<in>set rs. \<forall>our. Get_Meta_Field_By_ID T (type_id r) = Some our \<longrightarrow> \<not> covers our i"
  shows "out ! i = obj ! i"
  using assms
proof (induction rs arbitrary: obj)
  case Nil
  then show ?case by simp
next
  case (Cons r rs)
  from Cons.prems(1) obtain obj' where 1: "copy_field T b rp r obj = Some obj'"
    and 2: "copy_fields T b rp rs obj' = Some out"
    by (auto split: option.splits)
  have "obj' ! i = obj ! i"
    using copy_field_nth [OF 1 Cons.prems(2)] Cons.prems(3) by (auto split: option.splits)
  moreover have "out ! i = obj' ! i"
    using Cons.IH [OF 2] Cons.prems(2,3) copy_field_length [OF 1] by simp
  ultimately show ?case by simp
qed

lemma copy_fields_agree:
  assumes "copy_fields T b rp rs obj = Some out" and "i < length obj"
    and "\<forall>r\<in>set rs. \<forall>our. Get_Meta_Field_By_ID T (type_id r) = Some our \<longrightarrow>
           (\<forall>j. covers our j \<longrightarrow> b ! (rp + unat (offset r) + (j - unat (offset our))) = tgt j)"
  shows "out ! i =
     (if \<exists>r\<in>set rs. \<exists>our. Get_Meta_Field_By_ID T (type_id r) = Some our \<and> covers our i
      then tgt i else obj ! i)"
  using assms
proof (induction rs arbitrary: obj)
  case Nil
  then show ?case by simp
next
  case (Cons r rs)
  from Cons.prems(1) obtain obj' where 1: "copy_field T b rp r obj = Some obj'"
    and 2: "copy_fields T b rp rs obj' = Some out"
    by (auto split: option.splits)
  have len: "i < length obj'" using copy_field_length [OF 1] Cons.prems(2) by simp
  have step: "obj' ! i =
     (if \<exists>our. Get_Meta_Field_By_ID T (type_id r) = Some our \<and> covers our i then tgt i else obj ! i)"
    using copy_field_nth [OF 1 Cons.prems(2)] Cons.prems(3) by (auto split: option.splits)
  have rest: "out ! i =
     (if \<exists>r\<in>set rs. \<exists>our. Get_Meta_Field_By_ID T (type_id r) = Some our \<and> covers our i
      then tgt i else obj' ! i)"
    using Cons.IH [OF 2 len] Cons.prems(3) by simp
  show ?case
    unfolding rest step by auto
qed

lemma copy_fields_Some_iff:
  "(\<exists>out. copy_fields T b rp rs obj = Some out) \<longleftrightarrow>
   (\<forall>r\<in>set rs. \<forall>our. Get_Meta_Field_By_ID T (type_id r) = Some our \<longrightarrow>
       unat (offset our) + unat (size_f our) \<le> length obj
       \<and> rp + unat (offset r) + unat (size_f our) \<le> length b)"
proof (induction rs arbitrary: obj)
  case Nil
  then show ?case by simp
next
  case (Cons r rs)
  show ?case
  proof (cases "copy_field T b rp r obj")
    case None
    then show ?thesis
      by (auto simp: copy_field_def memcpy_def split: option.splits if_splits)
  next
    case (Some obj')
    then have ok: "\<forall>our. Get_Meta_Field_By_ID T (type_id r) = Some our \<longrightarrow>
       unat (offset our) + unat (size_f our) \<le> length obj
       \<and> rp + unat (offset r) + unat (size_f our) \<le> length b"
      by (auto simp: copy_field_def memcpy_def split: option.splits if_splits)
    have "length obj' = length obj" using Some by (rule copy_field_length)
    with Cons.IH [of obj'] Some ok show ?thesis by auto
  qed
qed

section \<open>Frames\<close>

lemma bytes_meta_Cons: "bytes_meta (r # rs) = bytes_meta_field r @ bytes_meta rs"
  by (simp add: bytes_meta_def)

lemma parse_bytes_meta:
  "map (\<lambda>i. meta_field_of_bytes (take 8 (drop (length pre + 8 * i) (pre @ bytes_meta rs @ rest))))
     [0..<length rs] = rs"
proof (induction rs arbitrary: pre)
  case Nil
  then show ?case by simp
next
  case (Cons r rs)
  have hd: "meta_field_of_bytes (take 8 (drop (length pre) (pre @ bytes_meta (r # rs) @ rest))) = r"
    using meta_field_roundtrip [of r "[]"] by (simp add: bytes_meta_Cons)
  have tl: "drop (length pre + 8 * Suc i) (pre @ bytes_meta (r # rs) @ rest)
      = drop (length (pre @ bytes_meta_field r) + 8 * i) ((pre @ bytes_meta_field r) @ bytes_meta rs @ rest)" for i
    by (simp add: bytes_meta_Cons)
  show ?case
    unfolding length_Cons map_upt_Suc tl
    using Cons.IH [of "pre @ bytes_meta_field r"] hd by simp
qed

lemma received_meta_frame:
  "received_meta (frame sid rs payload) (length rs) = rs"
  using parse_bytes_meta [of "bytes_u32 sid @ bytes_u32 (word_of_nat (length rs))" rs payload]
  by (simp add: received_meta_def frame_def)

lemma memcpy_src_prefix:
  "memcpy dst d (pre @ src) (length pre + s) n = memcpy dst d src s n"
  by (simp add: memcpy_def)

lemma copy_fields_src_prefix:
  "copy_fields T (pre @ payload) (length pre) rs obj = copy_fields T payload 0 rs obj"
  by (induction rs arbitrary: obj)
     (simp_all add: copy_field_def memcpy_src_prefix add.assoc split: option.splits)

lemma Deserialize_frame:
  assumes "length rs < 2 ^ 32"
  shows "Deserialize T (frame sid rs payload) obj =
     (if sid \<noteq> stream_id T then Some (SERIALIZER_DESERIALIZER_ERROR_STREAM_ID_MISMATCH, obj)
      else (case copy_fields T payload 0 rs obj of None \<Rightarrow> None
            | Some obj' \<Rightarrow> Some (SERIALIZER_DESERIALIZER_ERROR_NONE, obj')))"
proof -
  let ?F = "frame sid rs payload"
  have l0: "load ?F 0 4 = Some (bytes_u32 sid)"
    by (simp add: load_def frame_def)
  have l4: "load ?F 4 4 = Some (bytes_u32 (word_of_nat (length rs)))"
    by (simp add: load_def frame_def)
  have n: "unat (word_of_nat (length rs) :: 32 word) = length rs"
    using assms by (simp add: unat_of_nat)
  have len: "\<not> length ?F < 8 + 8 * length rs"
    by (simp add: frame_def)
  have F: "?F = (bytes_u32 sid @ bytes_u32 (word_of_nat (length rs)) @ bytes_meta rs) @ payload"
    by (simp add: frame_def)
  have "Deserialize_from T ?F (8 + 8 * length rs) (length rs) 8 0 obj
      = copy_fields T ?F (8 + 8 * length rs) rs obj"
    using Deserialize_from_copy_fields [of 0 "length rs" T ?F "8 + 8 * length rs" obj] len
    by (simp add: received_meta_frame)
  also have "\<dots> = copy_fields T payload 0 rs obj"
    using copy_fields_src_prefix [of T "bytes_u32 sid @ bytes_u32 (word_of_nat (length rs)) @ bytes_meta rs" payload rs obj]
    by (simp add: frame_def)
  finally have loop: "Deserialize_from T ?F (8 + 8 * length rs) (length rs) 8 0 obj
      = copy_fields T payload 0 rs obj" .
  have "Deserialize T ?F obj =
     (if sid \<noteq> stream_id T then Some (SERIALIZER_DESERIALIZER_ERROR_STREAM_ID_MISMATCH, obj)
      else (case Deserialize_from T ?F (8 + 8 * length rs) (length rs) 8 0 obj of None \<Rightarrow> None
            | Some obj' \<Rightarrow> Some (SERIALIZER_DESERIALIZER_ERROR_NONE, obj')))"
    unfolding Deserialize_def l0 l4 by (simp add: u32_roundtrip n Let_def)
  then show ?thesis
    by (simp only: loop)
qed

lemma Serialize_frame:
  assumes "frame_size T \<le> length buffer" and "length obj = sizeof_struct T"
  shows "Serialize T buffer obj = Some (frame (stream_id T) (meta T) (obj @ drop (frame_size T) buffer))"
  using Serialize_layout [of T buffer obj] assms
  by (simp add: frame_def frame_size_def sizeof_meta_def meta_size_def)

section \<open>The instance of example.c\<close>

lemma Stream1_Struct_t_eq:
  "Stream1_Struct_t =
     \<lparr>meta = [\<lparr>type_id = 1, offset = 0, size_f = 4\<rparr>, \<lparr>type_id = 3, offset = 4, size_f = 20\<rparr>],
      sizeof_struct = 24, stream_id = 1\<rparr>"
  by (simp add: Stream1_Struct_t_def SERIALIZER_CREATE_META_IMPL_def SERIALIZER_META_FIELD_def STREAM_1_FEILDS_def)

section \<open>Properties of the encoder\<close>

text \<open>
  C6. Given a buffer with room for the frame and an object of the size of the struct,
  \<open>Serialize\<close> leaves in the buffer, in this order: the stream id as four little-endian
  bytes, the number of descriptors of the table as four little-endian bytes, the descriptors in
  the order of the table, eight bytes each (id, offset, size), and the bytes of the object as one
  block. The number written is the length of the table.
\<close>

theorem Serialize_wire_format:
  assumes "frame_size T \<le> length buffer"
    and "length obj = sizeof_struct T"
    and "length (meta T) < 2 ^ 32"
  shows "Serialize T buffer obj =
           Some (bytes_u32 (stream_id T)
                 @ bytes_u32 (word_of_nat (length (meta T)))
                 @ concat (map (\<lambda>f. bytes_u32 (type_id f) @ bytes_u16 (offset f) @ bytes_u16 (size_f f)) (meta T))
                 @ obj
                 @ drop (frame_size T) buffer)
         \<and> unat (word_of_nat (length (meta T)) :: 32 word) = length (meta T)"
proof -
  have "concat (map (\<lambda>f. bytes_u32 (type_id f) @ bytes_u16 (offset f) @ bytes_u16 (size_f f)) (meta T))
          = bytes_meta (meta T)"
    by (simp add: bytes_meta_def bytes_meta_field_def [abs_def])
  moreover have "unat (word_of_nat (length (meta T)) :: 32 word) = length (meta T)"
    using assms(3) by (simp add: unat_of_nat)
  ultimately show ?thesis
    using Serialize_layout [of T buffer obj] assms(1,2)
    by (simp add: frame_size_def sizeof_meta_def meta_size_def)
qed

theorem Serialize_wire_format_witness:
  "frame_size Stream1_Struct_t \<le> length buffer0
   \<and> length obj1 = sizeof_struct Stream1_Struct_t
   \<and> length (meta Stream1_Struct_t) < 2 ^ 32
   \<and> Serialize Stream1_Struct_t buffer0 obj1 =
       Some ([1, 0, 0, 0] @ [2, 0, 0, 0] @ [1, 0, 0, 0, 0, 0, 4, 0] @ [3, 0, 0, 0, 4, 0, 20, 0]
             @ obj1 @ [0xEE, 0xFF])"
  using Serialize_wire_format [of Stream1_Struct_t buffer0 obj1]
  by (simp add: Stream1_Struct_t_eq frame_size_def obj1_def buffer0_def bytes_u32_def bytes_u16_def)

text \<open>
  C9. \<open>Serialize\<close> keeps the length of the buffer and every byte after the first
  \<open>8 + 8 * field_count + record_size\<close>; the bytes it leaves in that prefix are the same
  whatever the buffer held before.
\<close>

theorem Serialize_frame_effect:
  assumes "frame_size T \<le> length buffer"
    and "length obj = sizeof_struct T"
  shows "\<exists>out. Serialize T buffer obj = Some out
           \<and> length out = length buffer
           \<and> drop (frame_size T) out = drop (frame_size T) buffer
           \<and> (\<forall>buffer'. frame_size T \<le> length buffer' \<longrightarrow>
                 (\<exists>out'. Serialize T buffer' obj = Some out'
                    \<and> take (frame_size T) out' = take (frame_size T) out))"
proof -
  let ?F = "bytes_u32 (stream_id T) @ bytes_u32 (meta_size T) @ bytes_meta (meta T) @ obj"
  have len: "length ?F = frame_size T"
    using assms(2) by (simp add: frame_size_def)
  have S: "Serialize T b obj = Some (?F @ drop (frame_size T) b)" if "frame_size T \<le> length b" for b
    using Serialize_layout [of T b obj] that assms(2)
    by (simp add: frame_size_def sizeof_meta_def)
  show ?thesis
    using S [OF assms(1)] S len assms(1) by simp
qed

theorem Serialize_frame_effect_witness:
  "frame_size Stream1_Struct_t \<le> length buffer0
   \<and> length obj1 = sizeof_struct Stream1_Struct_t
   \<and> (\<exists>out. Serialize Stream1_Struct_t buffer0 obj1 = Some out
           \<and> length out = length buffer0
           \<and> drop (frame_size Stream1_Struct_t) out = drop (frame_size Stream1_Struct_t) buffer0
           \<and> (\<forall>buffer'. frame_size Stream1_Struct_t \<le> length buffer' \<longrightarrow>
                 (\<exists>out'. Serialize Stream1_Struct_t buffer' obj1 = Some out'
                    \<and> take (frame_size Stream1_Struct_t) out' = take (frame_size Stream1_Struct_t) out)))"
proof -
  have h1: "frame_size Stream1_Struct_t \<le> length buffer0"
    by (simp add: Stream1_Struct_t_eq frame_size_def buffer0_def)
  have h2: "length obj1 = sizeof_struct Stream1_Struct_t"
    by (simp add: Stream1_Struct_t_eq obj1_def)
  show ?thesis
    using h1 h2 Serialize_frame_effect [OF h1 h2] by blast
qed

section \<open>Round trip\<close>

text \<open>
  C1, as stated, fails: decoding writes only the bytes that some descriptor covers. For the
  struct with a padding byte, the padding of the decoded object is what the object held before,
  not the padding of the encoded one.
\<close>

theorem roundtrip_counterexample:
  "valid_schema Padded_Struct_t
   \<and> length [1, 0xFF, 2, 3 :: byte] = sizeof_struct Padded_Struct_t
   \<and> length [0, 0, 0, 0 :: byte] = sizeof_struct Padded_Struct_t
   \<and> frame_size Padded_Struct_t \<le> length (take 28 buffer0)
   \<and> Serialize Padded_Struct_t (take 28 buffer0) [1, 0xFF, 2, 3]
        = Some [1, 0, 0, 0, 2, 0, 0, 0, 1, 0, 0, 0, 0, 0, 1, 0, 2, 0, 0, 0, 2, 0, 2, 0, 1, 0xFF, 2, 3]
   \<and> Deserialize Padded_Struct_t
          [1, 0, 0, 0, 2, 0, 0, 0, 1, 0, 0, 0, 0, 0, 1, 0, 2, 0, 0, 0, 2, 0, 2, 0, 1, 0xFF, 2, 3]
          [0, 0, 0, 0]
        = Some (SERIALIZER_DESERIALIZER_ERROR_NONE, [1, 0, 2, 3])
   \<and> [1, 0, 2, 3] \<noteq> [1, 0xFF, 2, 3 :: byte]"
  by (simp add: valid_schema_def Padded_Struct_t_def frame_size_def buffer0_def Serialize_def
        Deserialize_def load_def memcpy_def u32_of_bytes_def u16_of_bytes_def bytes_u32_def
        bytes_u16_def bytes_meta_def bytes_meta_field_def meta_field_of_bytes_def sizeof_meta_def
        meta_size_def Get_Meta_Field_By_ID_def Get_Meta_Field_By_ID_from.simps Deserialize_from.simps)

text \<open>
  C1, amended. For a valid schema, an object \<open>r\<close> and an output object of the size of the
  struct and a buffer with room for the frame, decoding the encoded frame with the same schema
  and stream id returns \<open>SERIALIZER_DESERIALIZER_ERROR_NONE\<close>; every byte of the output
  that a descriptor covers is the byte of \<open>r\<close>, every other byte is what the output held
  before. The output is \<open>r\<close> when the descriptors cover the struct, or when the output
  agreed with \<open>r\<close> on the bytes they do not cover.
\<close>

theorem roundtrip_described_bytes:
  assumes "valid_schema T"
    and "length r = sizeof_struct T"
    and "length obj = sizeof_struct T"
    and "frame_size T \<le> length buffer"
  shows "\<exists>fr out. Serialize T buffer r = Some fr
           \<and> Deserialize T fr obj = Some (SERIALIZER_DESERIALIZER_ERROR_NONE, out)
           \<and> length out = sizeof_struct T
           \<and> (\<forall>i < sizeof_struct T. out ! i = (if \<exists>f\<in>set (meta T). covers f i then r ! i else obj ! i))
           \<and> ((\<forall>i < sizeof_struct T. (\<exists>f\<in>set (meta T). covers f i) \<or> obj ! i = r ! i) \<longrightarrow> out = r)"
proof -
  let ?rest = "drop (frame_size T) buffer"
  let ?P = "r @ ?rest"
  from assms(1) have dist: "distinct (map type_id (meta T))"
    and bnd: "\<And>f. f \<in> set (meta T) \<Longrightarrow> unat (offset f) + unat (size_f f) \<le> sizeof_struct T"
    and len: "length (meta T) < 2 ^ 32"
    by (auto simp: valid_schema_def)
  have get: "Get_Meta_Field_By_ID T (type_id f) = Some f" if "f \<in> set (meta T)" for f
    using Get_distinct [OF len dist that] .
  have S: "Serialize T buffer r = Some (frame (stream_id T) (meta T) ?P)"
    using Serialize_frame [OF assms(4,2)] .
  have D: "Deserialize T (frame (stream_id T) (meta T) ?P) obj =
      (case copy_fields T ?P 0 (meta T) obj of None \<Rightarrow> None
       | Some obj' \<Rightarrow> Some (SERIALIZER_DESERIALIZER_ERROR_NONE, obj'))"
    using Deserialize_frame [OF len, of T "stream_id T" ?P obj] by simp
  have "\<exists>out. copy_fields T ?P 0 (meta T) obj = Some out"
    unfolding copy_fields_Some_iff
    using get bnd assms(2,3) by fastforce
  then obtain out where C: "copy_fields T ?P 0 (meta T) obj = Some out" ..
  have lo: "length out = sizeof_struct T"
    using copy_fields_length [OF C] assms(3) by simp
  have src: "\<forall>f\<in>set (meta T). \<forall>our. Get_Meta_Field_By_ID T (type_id f) = Some our \<longrightarrow>
           (\<forall>j. covers our j \<longrightarrow> ?P ! (0 + unat (offset f) + (j - unat (offset our))) = r ! j)"
  proof (intro ballI allI impI)
    fix f our j
    assume f: "f \<in> set (meta T)" and g: "Get_Meta_Field_By_ID T (type_id f) = Some our"
      and c: "covers our j"
    from g get [OF f] have [simp]: "our = f" by simp
    from c bnd [OF f] assms(2) have "unat (offset f) \<le> j" "j < length r"
      by (auto simp: covers_def)
    then show "?P ! (0 + unat (offset f) + (j - unat (offset our))) = r ! j"
      by (simp add: nth_append)
  qed
  have cov: "(\<exists>f\<in>set (meta T). \<exists>our. Get_Meta_Field_By_ID T (type_id f) = Some our \<and> covers our i)
      \<longleftrightarrow> (\<exists>f\<in>set (meta T). covers f i)" for i
    using get by auto
  have nth: "out ! i = (if \<exists>f\<in>set (meta T). covers f i then r ! i else obj ! i)"
    if "i < sizeof_struct T" for i
    using copy_fields_agree [OF C _ src, of i] that assms(3) by (simp only: cov)
  have eq: "out = r" if "\<forall>i < sizeof_struct T. (\<exists>f\<in>set (meta T). covers f i) \<or> obj ! i = r ! i"
  proof (rule nth_equalityI)
    show "length out = length r" using lo assms(2) by simp
    fix i assume "i < length out"
    then have i: "i < sizeof_struct T" using lo by simp
    with that nth [OF i] show "out ! i = r ! i" by auto
  qed
  show ?thesis
    using S D C lo nth eq by auto
qed

theorem roundtrip_described_bytes_witness:
  "valid_schema Stream1_Struct_t
   \<and> length obj1 = sizeof_struct Stream1_Struct_t
   \<and> length obj2 = sizeof_struct Stream1_Struct_t
   \<and> frame_size Stream1_Struct_t \<le> length buffer0
   \<and> (\<exists>fr. Serialize Stream1_Struct_t buffer0 obj1 = Some fr
          \<and> Deserialize Stream1_Struct_t fr obj2 = Some (SERIALIZER_DESERIALIZER_ERROR_NONE, obj1))"
proof -
  have h1: "valid_schema Stream1_Struct_t"
    by (simp add: valid_schema_def Stream1_Struct_t_eq)
  have h2: "length obj1 = sizeof_struct Stream1_Struct_t"
    by (simp add: obj1_def Stream1_Struct_t_eq)
  have h3: "length obj2 = sizeof_struct Stream1_Struct_t"
    by (simp add: obj2_def Stream1_Struct_t_eq)
  have h4: "frame_size Stream1_Struct_t \<le> length buffer0"
    by (simp add: frame_size_def buffer0_def Stream1_Struct_t_eq)
  have cov: "\<forall>i < sizeof_struct Stream1_Struct_t.
      (\<exists>f\<in>set (meta Stream1_Struct_t). covers f i) \<or> obj2 ! i = obj1 ! i"
    by (auto simp: Stream1_Struct_t_eq covers_def)
  show ?thesis
  proof -
    from roundtrip_described_bytes [OF h1 h2 h3 h4] obtain fr out
      where S: "Serialize Stream1_Struct_t buffer0 obj1 = Some fr"
        and D: "Deserialize Stream1_Struct_t fr obj2 = Some (SERIALIZER_DESERIALIZER_ERROR_NONE, out)"
        and E: "(\<forall>i < sizeof_struct Stream1_Struct_t.
                   (\<exists>f\<in>set (meta Stream1_Struct_t). covers f i) \<or> obj2 ! i = obj1 ! i) \<longrightarrow> out = obj1"
      by (elim exE conjE) (rule that)
    from E cov have "out = obj1" ..
    with S D h1 h2 h3 h4 show ?thesis by simp
  qed
qed

section \<open>Properties of the decoder\<close>

text \<open>
  C3. When the first four bytes of the frame, read as a 32-bit integer, differ from the
  stream id the decoder was generated for, \<open>Deserialize\<close> returns
  \<open>SERIALIZER_DESERIALIZER_ERROR_STREAM_ID_MISMATCH\<close> and the object it returns is the object
  it was given: nothing is written before the check.
\<close>

theorem Deserialize_stream_id_mismatch:
  assumes "4 \<le> length buffer"
    and "u32_of_bytes (take 4 buffer) \<noteq> stream_id T"
  shows "Deserialize T buffer obj = Some (SERIALIZER_DESERIALIZER_ERROR_STREAM_ID_MISMATCH, obj)"
  using assms by (simp add: Deserialize_def load_def)

theorem Deserialize_stream_id_mismatch_witness:
  "4 \<le> length [2, 0, 0, 0, 1, 0, 0, 0, 1, 0, 0, 0, 0, 0, 1, 0, 0xAA :: byte]
   \<and> u32_of_bytes (take 4 [2, 0, 0, 0, 1, 0, 0, 0, 1, 0, 0, 0, 0, 0, 1, 0, 0xAA])
        \<noteq> stream_id \<lparr>meta = [\<lparr>type_id = 1, offset = 0, size_f = 1\<rparr>], sizeof_struct = 1, stream_id = 1\<rparr>
   \<and> Deserialize \<lparr>meta = [\<lparr>type_id = 1, offset = 0, size_f = 1\<rparr>], sizeof_struct = 1, stream_id = 1\<rparr>
        [2, 0, 0, 0, 1, 0, 0, 0, 1, 0, 0, 0, 0, 0, 1, 0, 0xAA] [0x55]
       = Some (SERIALIZER_DESERIALIZER_ERROR_STREAM_ID_MISMATCH, [0x55])"
  using Deserialize_stream_id_mismatch
    [of "[2, 0, 0, 0, 1, 0, 0, 0, 1, 0, 0, 0, 0, 0, 1, 0, 0xAA]"
        "\<lparr>meta = [\<lparr>type_id = 1, offset = 0, size_f = 1\<rparr>], sizeof_struct = 1, stream_id = 1\<rparr>" "[0x55]"]
  by (simp add: u32_of_bytes_def)

section \<open>What a successful decode did\<close>

lemma non_overlappingD:
  assumes "non_overlapping T" and "f \<in> set (meta T)" and "g \<in> set (meta T)"
    and "type_id f \<noteq> type_id g"
  shows "disjoint_fields f g"
proof -
  from assms(4) have "f \<noteq> g" by blast
  with assms(1-3) show ?thesis unfolding non_overlapping_def by blast
qed

lemma Deserialize_NONE:
  assumes "Deserialize T buffer obj = Some (SERIALIZER_DESERIALIZER_ERROR_NONE, out)"
  shows "Deserialize_from T buffer (received_obj_ptr buffer) (received_meta_size buffer) 8 0 obj = Some out"
    and "copy_fields T buffer (received_obj_ptr buffer) (received buffer) obj = Some out"
    and "received buffer \<noteq> [] \<Longrightarrow> received_obj_ptr buffer \<le> length buffer"
proof -
  let ?n = "received_meta_size buffer"
  from assms have l4: "load buffer 4 4 = Some (take 4 (drop 4 buffer))"
    by (auto simp: Deserialize_def load_def split: option.splits if_splits)
  with assms show D: "Deserialize_from T buffer (received_obj_ptr buffer) ?n 8 0 obj = Some out"
    by (auto simp: Deserialize_def received_obj_ptr_def received_meta_size_def Let_def
             split: option.splits if_splits)
  have E: "Deserialize_from T buffer (received_obj_ptr buffer) ?n 8 0 obj =
      (if 0 < ?n \<and> length buffer < 8 + 8 * ?n then None
       else copy_fields T buffer (received_obj_ptr buffer) (received buffer) obj)"
    using Deserialize_from_copy_fields [of 0 ?n T buffer "received_obj_ptr buffer" obj]
    by (simp add: received_def)
  from D E show "copy_fields T buffer (received_obj_ptr buffer) (received buffer) obj = Some out"
    by (simp split: if_splits)
  assume "received buffer \<noteq> []"
  then have "0 < ?n" by (auto simp: received_def received_meta_def)
  with D E show "received_obj_ptr buffer \<le> length buffer"
    by (simp add: received_obj_ptr_def split: if_splits)
qed

lemma field_bytes_eqI:
  assumes "length a = length b"
    and "\<And>i. i < length a \<Longrightarrow> covers f i \<Longrightarrow> a ! i = b ! i"
  shows "field_bytes a f = field_bytes b f"
proof (rule nth_equalityI)
  show "length (field_bytes a f) = length (field_bytes b f)"
    using assms(1) by (simp add: field_bytes_def)
  fix k assume "k < length (field_bytes a f)"
  then have k: "k < unat (size_f f)" "unat (offset f) + k < length a"
    by (auto simp: field_bytes_def)
  then have "covers f (unat (offset f) + k)" by (simp add: covers_def)
  with assms(2) k have "a ! (unat (offset f) + k) = b ! (unat (offset f) + k)" by blast
  with k assms(1) show "field_bytes a f ! k = field_bytes b f ! k"
    by (simp add: field_bytes_def)
qed

lemma copy_fields_keeps_field:
  assumes "copy_fields T b rp rs obj = Some out"
    and "\<forall>r\<in>set rs. \<forall>our. Get_Meta_Field_By_ID T (type_id r) = Some our \<longrightarrow> disjoint_fields our g"
  shows "field_bytes out g = field_bytes obj g"
proof (rule field_bytes_eqI)
  show "length out = length obj" using assms(1) by (rule copy_fields_length)
  fix i assume "i < length out" and c: "covers g i"
  then have i: "i < length obj" using copy_fields_length [OF assms(1)] by simp
  have "\<forall>r\<in>set rs. \<forall>our. Get_Meta_Field_By_ID T (type_id r) = Some our \<longrightarrow> \<not> covers our i"
    using assms(2) c disjoint_fields_covers by blast
  then show "out ! i = obj ! i"
    using copy_fields_untouched [OF assms(1) i] by blast
qed

lemma memcpy_field:
  "memcpy dst d src s n = Some out \<Longrightarrow> take n (drop d out) = take n (drop s src)"
  by (auto simp: memcpy_def split: if_splits)

lemma received_meta_take:
  "m \<le> n \<Longrightarrow> received_meta buffer m = take m (received_meta buffer n)"
  by (simp add: received_meta_def take_map)

lemma copy_fields_last:
  assumes "copy_fields T b rp (pre @ r # post) obj = Some out"
    and "Get_Meta_Field_By_ID T (type_id r) = Some our"
    and "non_overlapping T"
    and "type_id r \<notin> type_id ` set post"
  shows "field_bytes out our = take (unat (size_f our)) (drop (rp + unat (offset r)) b)"
proof -
  from assms(1) obtain o1 where 1: "copy_fields T b rp pre obj = Some o1"
    and 2: "copy_fields T b rp (r # post) o1 = Some out"
    by (auto simp: copy_fields_append split: option.splits)
  from 2 obtain mid where 3: "copy_field T b rp r o1 = Some mid"
    and 4: "copy_fields T b rp post mid = Some out"
    by (auto split: option.splits)
  have fm: "field_bytes mid our = take (unat (size_f our)) (drop (rp + unat (offset r)) b)"
    using 3 assms(2) by (simp add: copy_field_def field_bytes_def memcpy_field)
  have "disjoint_fields our' our"
    if r': "r' \<in> set post" and g: "Get_Meta_Field_By_ID T (type_id r') = Some our'" for r' our'
  proof -
    from Get_Some [OF g] have "our' \<in> set (meta T)" "type_id our' = type_id r'" .
    moreover from Get_Some [OF assms(2)] have "our \<in> set (meta T)" "type_id our = type_id r" .
    moreover from r' assms(4) have "type_id r' \<noteq> type_id r" by (metis imageI)
    ultimately show ?thesis
      using assms(3) by (auto intro: non_overlappingD)
  qed
  then have "field_bytes out our = field_bytes mid our"
    using copy_fields_keeps_field [OF 4] by blast
  with fm show ?thesis by simp
qed

lemma copy_field_unknown:
  "Get_Meta_Field_By_ID T (type_id x) = None \<Longrightarrow> copy_field T b rp x obj = Some obj"
  by (simp add: copy_field_def)

lemma copy_fields_unknown:
  assumes "Get_Meta_Field_By_ID T (type_id x) = None"
  shows "copy_fields T b rp (pre @ x # post) obj = copy_fields T b rp (pre @ post) obj"
  by (simp add: copy_fields_append copy_field_unknown [OF assms] split: option.splits)

lemma unknown_skipped:
  assumes "Get_Meta_Field_By_ID T (type_id x) = None" and "length (pre @ x # post) < 2 ^ 32"
  shows "Deserialize T (frame sid (pre @ x # post) payload) obj
       = Deserialize T (frame sid (pre @ post) payload) obj"
proof -
  have l: "length (pre @ post) < 2 ^ 32" using assms(2) by simp
  show ?thesis
    unfolding Deserialize_frame [OF assms(2)] Deserialize_frame [OF l]
      copy_fields_unknown [OF assms(1)] ..
qed

lemma forward_compatible:
  assumes v1: "valid_schema T" and no: "non_overlapping T"
    and v2: "valid_schema T2"
    and sid: "stream_id T2 = stream_id T"
    and compat: "\<forall>f\<in>set (meta T). \<exists>f2\<in>set (meta T2). type_id f2 = type_id f \<and> size_f f2 = size_f f"
    and lr: "length r2 = sizeof_struct T2"
    and lo: "length obj = sizeof_struct T"
    and lb: "frame_size T2 \<le> length buffer"
  shows "\<exists>fr out. Serialize T2 buffer r2 = Some fr
           \<and> Deserialize T fr obj = Some (SERIALIZER_DESERIALIZER_ERROR_NONE, out)
           \<and> (\<forall>f\<in>set (meta T). \<forall>f2\<in>set (meta T2).
                  type_id f2 = type_id f \<longrightarrow> field_bytes out f = field_bytes r2 f2)"
proof -
  let ?P = "r2 @ drop (frame_size T2) buffer"
  from v1 have d1: "distinct (map type_id (meta T))" and l1: "length (meta T) < 2 ^ 32"
    and b1: "\<And>f. f \<in> set (meta T) \<Longrightarrow> unat (offset f) + unat (size_f f) \<le> sizeof_struct T"
    by (auto simp: valid_schema_def)
  from v2 have d2: "distinct (map type_id (meta T2))" and l2: "length (meta T2) < 2 ^ 32"
    and b2: "\<And>f. f \<in> set (meta T2) \<Longrightarrow> unat (offset f) + unat (size_f f) \<le> sizeof_struct T2"
    by (auto simp: valid_schema_def)
  have same: "size_f our = size_f f2"
    if "f2 \<in> set (meta T2)" and "our \<in> set (meta T)" and "type_id our = type_id f2" for f2 our
  proof -
    from compat that(2) obtain f2' where f2': "f2' \<in> set (meta T2)" "type_id f2' = type_id our"
      "size_f f2' = size_f our" by blast
    with that d2 have "f2' = f2" by (metis distinct_map inj_onD)
    with f2' show ?thesis by simp
  qed
  have S: "Serialize T2 buffer r2 = Some (frame (stream_id T2) (meta T2) ?P)"
    using Serialize_frame [OF lb lr] .
  have D: "Deserialize T (frame (stream_id T2) (meta T2) ?P) obj =
      (case copy_fields T ?P 0 (meta T2) obj of None \<Rightarrow> None
       | Some obj' \<Rightarrow> Some (SERIALIZER_DESERIALIZER_ERROR_NONE, obj'))"
    using Deserialize_frame [OF l2, of T "stream_id T2" ?P obj] sid by simp
  have "\<exists>out. copy_fields T ?P 0 (meta T2) obj = Some out"
    unfolding copy_fields_Some_iff
  proof (intro ballI allI impI)
    fix f2 our
    assume f2: "f2 \<in> set (meta T2)" and g: "Get_Meta_Field_By_ID T (type_id f2) = Some our"
    from Get_Some [OF g] have our: "our \<in> set (meta T)" "type_id our = type_id f2" .
    from same [OF f2 our] b2 [OF f2] b1 [OF our(1)] lr lo
    show "unat (offset our) + unat (size_f our) \<le> length obj
        \<and> 0 + unat (offset f2) + unat (size_f our) \<le> length ?P"
      by simp
  qed
  then obtain out where C: "copy_fields T ?P 0 (meta T2) obj = Some out" ..
  have "field_bytes out f = field_bytes r2 f2"
    if f: "f \<in> set (meta T)" and f2: "f2 \<in> set (meta T2)" and id: "type_id f2 = type_id f" for f f2
  proof -
    from split_list [OF f2] obtain pre post where sp: "meta T2 = pre @ f2 # post" by blast
    with d2 have last: "type_id f2 \<notin> type_id ` set post" by auto
    have g: "Get_Meta_Field_By_ID T (type_id f2) = Some f"
      using Get_distinct [OF l1 d1 f] id by simp
    have "field_bytes out f = take (unat (size_f f)) (drop (0 + unat (offset f2)) ?P)"
      using copy_fields_last [OF _ g no last, of ?P 0 pre obj out] C sp by simp
    moreover have "size_f f = size_f f2" using same [OF f2 f] id by simp
    ultimately show ?thesis
      using b2 [OF f2] lr by (simp add: field_bytes_def)
  qed
  with S D C show ?thesis by auto
qed

section \<open>Copies to disjoint fields commute\<close>

lemma copy_step_simps [simp]:
  "copy_step T b rp r None = None"
  "copy_step T b rp r (Some obj) = copy_field T b rp r obj"
  by (simp_all add: copy_step_def)

lemma fold_copy_step_None: "fold (copy_step T b rp) rs None = None"
  by (induction rs) simp_all

lemma copy_fields_fold:
  "copy_fields T b rp rs obj = fold (copy_step T b rp) rs (Some obj)"
proof (induction rs arbitrary: obj)
  case Nil
  then show ?case by simp
next
  case (Cons r rs)
  then show ?case
    by (cases "copy_field T b rp r obj") (simp_all add: fold_copy_step_None)
qed

lemma memcpy_None_iff:
  "memcpy dst d src s n = None \<longleftrightarrow> \<not> (d + n \<le> length dst \<and> s + n \<le> length src)"
  by (simp add: memcpy_def)

lemma memcpy_twice_None:
  assumes "\<not> (d1 + n1 \<le> length obj \<and> s1 + n1 \<le> length b \<and> d2 + n2 \<le> length obj \<and> s2 + n2 \<le> length b)"
  shows "(case memcpy obj d1 b s1 n1 of None \<Rightarrow> None | Some o1 \<Rightarrow> memcpy o1 d2 b s2 n2) = None"
proof (cases "memcpy obj d1 b s1 n1")
  case None
  then show ?thesis by simp
next
  case (Some o1)
  then have "d1 + n1 \<le> length obj \<and> s1 + n1 \<le> length b"
    using memcpy_None_iff [of obj d1 b s1 n1] by simp
  moreover have "length o1 = length obj" using Some by (rule memcpy_length)
  ultimately have "memcpy o1 d2 b s2 n2 = None"
    using assms by (simp only: memcpy_None_iff) simp
  with Some show ?thesis by simp
qed

lemma memcpy_commute:
  assumes "d1 + n1 \<le> d2 \<or> d2 + n2 \<le> d1"
  shows "(case memcpy obj d1 b s1 n1 of None \<Rightarrow> None | Some o1 \<Rightarrow> memcpy o1 d2 b s2 n2)
       = (case memcpy obj d2 b s2 n2 of None \<Rightarrow> None | Some o2 \<Rightarrow> memcpy o2 d1 b s1 n1)"
proof (cases "d1 + n1 \<le> length obj \<and> s1 + n1 \<le> length b \<and> d2 + n2 \<le> length obj \<and> s2 + n2 \<le> length b")
  case False
  then have "\<not> (d2 + n2 \<le> length obj \<and> s2 + n2 \<le> length b \<and> d1 + n1 \<le> length obj \<and> s1 + n1 \<le> length b)"
    by blast
  then show ?thesis
    using memcpy_twice_None [OF False] memcpy_twice_None [of d2 n2 obj s2 b d1 n1 s1] by simp
next
  case True
  then obtain o1 o2 where 1: "memcpy obj d1 b s1 n1 = Some o1" and 2: "memcpy obj d2 b s2 n2 = Some o2"
    using memcpy_None_iff [of obj d1 b s1 n1] memcpy_None_iff [of obj d2 b s2 n2] by fastforce
  have l1: "length o1 = length obj" and l2: "length o2 = length obj"
    using 1 2 by (auto dest: memcpy_length)
  from True l1 l2 obtain o12 o21 where 3: "memcpy o1 d2 b s2 n2 = Some o12"
    and 4: "memcpy o2 d1 b s1 n1 = Some o21"
    using memcpy_None_iff [of o1 d2 b s2 n2] memcpy_None_iff [of o2 d1 b s1 n1] by fastforce
  have "o12 = o21"
  proof (rule nth_equalityI)
    show "length o12 = length o21"
      using memcpy_length [OF 3] memcpy_length [OF 4] l1 l2 by simp
    fix i assume "i < length o12"
    then have i: "i < length obj" using memcpy_length [OF 3] l1 by simp
    have i1: "i < length o1" and i2: "i < length o2" using i l1 l2 by simp_all
    have a: "o12 ! i = (if d2 \<le> i \<and> i < d2 + n2 then b ! (s2 + (i - d2))
                        else if d1 \<le> i \<and> i < d1 + n1 then b ! (s1 + (i - d1)) else obj ! i)"
      unfolding memcpy_nth [OF 3 i1] memcpy_nth [OF 1 i] ..
    have c: "o21 ! i = (if d1 \<le> i \<and> i < d1 + n1 then b ! (s1 + (i - d1))
                        else if d2 \<le> i \<and> i < d2 + n2 then b ! (s2 + (i - d2)) else obj ! i)"
      unfolding memcpy_nth [OF 4 i2] memcpy_nth [OF 2 i] ..
    have "\<not> ((d1 \<le> i \<and> i < d1 + n1) \<and> (d2 \<le> i \<and> i < d2 + n2))"
      using assms by linarith
    then show "o12 ! i = o21 ! i"
      unfolding a c by presburger
  qed
  with 1 2 3 4 show ?thesis by simp
qed

lemma copy_step_commute:
  assumes "non_overlapping T" and "type_id x \<noteq> type_id y"
  shows "copy_step T b rp x (copy_step T b rp y acc) = copy_step T b rp y (copy_step T b rp x acc)"
proof (cases acc)
  case None
  then show ?thesis by simp
next
  case (Some obj)
  show ?thesis
  proof (cases "Get_Meta_Field_By_ID T (type_id x)")
    case None
    then show ?thesis
      using Some by (simp add: copy_step_def copy_field_def split: option.splits)
  next
    case gx: (Some ox)
    show ?thesis
    proof (cases "Get_Meta_Field_By_ID T (type_id y)")
      case None
      then show ?thesis
        using Some by (simp add: copy_step_def copy_field_def split: option.splits)
    next
      case gy: (Some oy)
      have "type_id ox \<noteq> type_id oy"
        using Get_Some(2) [OF gx] Get_Some(2) [OF gy] assms(2) by simp
      then have "disjoint_fields oy ox"
        using non_overlappingD [OF assms(1) Get_Some(1) [OF gy] Get_Some(1) [OF gx]] by simp
      then have d: "unat (offset oy) + unat (size_f oy) \<le> unat (offset ox)
          \<or> unat (offset ox) + unat (size_f ox) \<le> unat (offset oy)"
        by (simp add: disjoint_fields_def)
      have cx: "copy_field T b rp x ob
          = memcpy ob (unat (offset ox)) b (rp + unat (offset x)) (unat (size_f ox))" for ob
        by (simp add: copy_field_def gx)
      have cy: "copy_field T b rp y ob
          = memcpy ob (unat (offset oy)) b (rp + unat (offset y)) (unat (size_f oy))" for ob
        by (simp add: copy_field_def gy)
      have "copy_step T b rp x (copy_step T b rp y (Some obj))
          = (case memcpy obj (unat (offset oy)) b (rp + unat (offset y)) (unat (size_f oy)) of
               None \<Rightarrow> None
             | Some o1 \<Rightarrow> memcpy o1 (unat (offset ox)) b (rp + unat (offset x)) (unat (size_f ox)))"
        by (simp add: cx cy split: option.splits)
      moreover have "copy_step T b rp y (copy_step T b rp x (Some obj))
          = (case memcpy obj (unat (offset ox)) b (rp + unat (offset x)) (unat (size_f ox)) of
               None \<Rightarrow> None
             | Some o2 \<Rightarrow> memcpy o2 (unat (offset oy)) b (rp + unat (offset y)) (unat (size_f oy)))"
        by (simp add: cx cy split: option.splits)
      ultimately show ?thesis
        using memcpy_commute [OF d, where obj = obj and b = b
            and ?s1.0 = "rp + unat (offset y)" and ?s2.0 = "rp + unat (offset x)"]
        by (simp only: Some)
    qed
  qed
qed

lemma copy_fields_permuted:
  assumes "mset rs' = mset rs" and "distinct (map type_id rs)" and "non_overlapping T"
  shows "copy_fields T b rp rs' obj = copy_fields T b rp rs obj"
proof -
  have "copy_step T b rp x \<circ> copy_step T b rp y = copy_step T b rp y \<circ> copy_step T b rp x"
    if "x \<in> set rs" and "y \<in> set rs" for x y
  proof (cases "x = y")
    case True
    then show ?thesis by simp
  next
    case False
    with that assms(2) have "type_id x \<noteq> type_id y"
      by (meson distinct_map inj_onD)
    then show ?thesis
      using copy_step_commute [OF assms(3)] by (auto simp: fun_eq_iff)
  qed
  then have "fold (copy_step T b rp) rs = fold (copy_step T b rp) rs'"
    using assms(1) by (intro fold_multiset_equiv) simp_all
  then show ?thesis by (simp add: copy_fields_fold)
qed

section \<open>Evaluation of the test data\<close>

lemmas eval_defs =
  Serialize_def Deserialize_def load_def memcpy_def u32_of_bytes_def u16_of_bytes_def bytes_u32_def
  bytes_u16_def bytes_meta_def bytes_meta_field_def meta_field_of_bytes_def sizeof_meta_def
  meta_size_def Get_Meta_Field_By_ID_def Get_Meta_Field_By_ID_from.simps Deserialize_from.simps
  frame_size_def valid_schema_def non_overlapping_def disjoint_fields_def field_bytes_def
  received_def received_meta_def received_meta_size_def received_obj_ptr_def frame_def

lemma Deserialize_frame_old:
  "Deserialize Padded_Struct_t frame_old [0, 0, 0, 0]
     = Some (SERIALIZER_DESERIALIZER_ERROR_NONE, [0xAA, 0, 0, 0])"
  by (simp add: eval_defs Padded_Struct_t_def frame_old_def)

lemma received_frame_old: "received frame_old = [\<lparr>type_id = 1, offset = 0, size_f = 1\<rparr>]"
  by (simp add: eval_defs frame_old_def)

lemma non_overlapping_Padded: "non_overlapping Padded_Struct_t"
  by (simp add: eval_defs Padded_Struct_t_def)

lemma Deserialize_frame_dup:
  "Deserialize Old_Struct_t frame_dup [0] = Some (SERIALIZER_DESERIALIZER_ERROR_NONE, [0xBB])"
  by (simp add: eval_defs Old_Struct_t_def frame_dup_def)

lemma received_frame_dup:
  "received frame_dup = [\<lparr>type_id = 1, offset = 0, size_f = 1\<rparr>] @ \<lparr>type_id = 1, offset = 1, size_f = 1\<rparr> # []"
  by code_simp

lemma Get_Old: "Get_Meta_Field_By_ID Old_Struct_t (type_id \<lparr>type_id = 1, offset = 1, size_f = 1\<rparr>)
    = Some \<lparr>type_id = 1, offset = 0, size_f = 1\<rparr>"
  by (simp add: eval_defs Old_Struct_t_def)

text \<open>
  C4. When \<open>Deserialize\<close> returns \<open>SERIALIZER_DESERIALIZER_ERROR_NONE\<close>, a field of
  the local table whose id is the id of no received descriptor holds, at its offset and size,
  the bytes the object held on entry. The members of the struct do not overlap.
\<close>

theorem unmatched_field_untouched:
  assumes "Deserialize T buffer obj = Some (SERIALIZER_DESERIALIZER_ERROR_NONE, out)"
    and "g \<in> set (meta T)"
    and "type_id g \<notin> type_id ` set (received buffer)"
    and "non_overlapping T"
  shows "field_bytes out g = field_bytes obj g"
proof -
  have C: "copy_fields T buffer (received_obj_ptr buffer) (received buffer) obj = Some out"
    using Deserialize_NONE(2) [OF assms(1)] .
  have "disjoint_fields our g"
    if "r \<in> set (received buffer)" and "Get_Meta_Field_By_ID T (type_id r) = Some our" for r our
  proof -
    from Get_Some [OF that(2)] have "our \<in> set (meta T)" and "type_id our = type_id r" .
    moreover from that(1) assms(3) have "type_id r \<noteq> type_id g" by (metis imageI)
    ultimately show ?thesis
      using assms(2,4) by (auto intro: non_overlappingD)
  qed
  then show ?thesis
    using copy_fields_keeps_field [OF C] by blast
qed

theorem unmatched_field_untouched_witness:
  "Deserialize Padded_Struct_t frame_old [0, 0, 0, 0]
     = Some (SERIALIZER_DESERIALIZER_ERROR_NONE, [0xAA, 0, 0, 0])
   \<and> \<lparr>type_id = 2, offset = 2, size_f = 2\<rparr> \<in> set (meta Padded_Struct_t)
   \<and> type_id \<lparr>type_id = 2, offset = 2, size_f = 2\<rparr> \<notin> type_id ` set (received frame_old)
   \<and> non_overlapping Padded_Struct_t
   \<and> field_bytes [0xAA, 0, 0, 0] \<lparr>type_id = 2, offset = 2, size_f = 2\<rparr>
       = field_bytes [0, 0, 0, 0] \<lparr>type_id = 2, offset = 2, size_f = 2\<rparr>"
proof -
  have h2: "\<lparr>type_id = 2, offset = 2, size_f = 2\<rparr> \<in> set (meta Padded_Struct_t)"
    by (simp add: Padded_Struct_t_def)
  have h3: "type_id \<lparr>type_id = 2, offset = 2, size_f = 2\<rparr> \<notin> type_id ` set (received frame_old)"
    by (simp add: received_frame_old)
  show ?thesis
    using unmatched_field_untouched [OF Deserialize_frame_old h2 h3 non_overlapping_Padded]
      Deserialize_frame_old h2 h3 non_overlapping_Padded
    by simp
qed

text \<open>
  C5. A frame with a descriptor whose id the local table does not have decodes as the frame
  without that descriptor does: no error, no write, the other descriptors are processed. And a
  frame encoded with a schema that has, for every field of the local schema, a field of the
  same id and size (and any further fields) decodes with
  \<open>SERIALIZER_DESERIALIZER_ERROR_NONE\<close>, every local field holding the bytes of the field of
  that id in the encoded object.
\<close>

theorem unknown_descriptor_skipped:
  "(Get_Meta_Field_By_ID T (type_id x) = None \<and> length (pre @ x # post) < 2 ^ 32 \<longrightarrow>
      Deserialize T (frame sid (pre @ x # post) payload) obj
        = Deserialize T (frame sid (pre @ post) payload) obj)
   \<and> (valid_schema T \<and> non_overlapping T \<and> valid_schema T2 \<and> stream_id T2 = stream_id T
        \<and> (\<forall>f\<in>set (meta T). \<exists>f2\<in>set (meta T2). type_id f2 = type_id f \<and> size_f f2 = size_f f)
        \<and> length r2 = sizeof_struct T2 \<and> length obj = sizeof_struct T
        \<and> frame_size T2 \<le> length buffer \<longrightarrow>
      (\<exists>fr out. Serialize T2 buffer r2 = Some fr
           \<and> Deserialize T fr obj = Some (SERIALIZER_DESERIALIZER_ERROR_NONE, out)
           \<and> (\<forall>f\<in>set (meta T). \<forall>f2\<in>set (meta T2).
                  type_id f2 = type_id f \<longrightarrow> field_bytes out f = field_bytes r2 f2)))"
  using unknown_skipped [of T x pre post sid payload obj]
    forward_compatible [of T T2 r2 obj buffer]
  by blast

theorem unknown_descriptor_skipped_witness:
  "Get_Meta_Field_By_ID Old_Struct_t (type_id \<lparr>type_id = 2, offset = 2, size_f = 2\<rparr>) = None
   \<and> length ([\<lparr>type_id = 1, offset = 0, size_f = 1\<rparr>] @ \<lparr>type_id = 2, offset = 2, size_f = 2\<rparr> # []) < 2 ^ 32
   \<and> Deserialize Old_Struct_t
         (frame 1 ([\<lparr>type_id = 1, offset = 0, size_f = 1\<rparr>] @ \<lparr>type_id = 2, offset = 2, size_f = 2\<rparr> # [])
            [0xAA, 0, 0xBB, 0xCC]) [0]
       = Deserialize Old_Struct_t
         (frame 1 ([\<lparr>type_id = 1, offset = 0, size_f = 1\<rparr>] @ []) [0xAA, 0, 0xBB, 0xCC]) [0]
   \<and> valid_schema Old_Struct_t \<and> non_overlapping Old_Struct_t \<and> valid_schema Padded_Struct_t
   \<and> stream_id Padded_Struct_t = stream_id Old_Struct_t
   \<and> length [0xAA, 0, 0xBB, 0xCC :: byte] = sizeof_struct Padded_Struct_t
   \<and> length [0 :: byte] = sizeof_struct Old_Struct_t
   \<and> frame_size Padded_Struct_t \<le> length (take 28 buffer0)
   \<and> (\<exists>fr out. Serialize Padded_Struct_t (take 28 buffer0) [0xAA, 0, 0xBB, 0xCC] = Some fr
          \<and> Deserialize Old_Struct_t fr [0] = Some (SERIALIZER_DESERIALIZER_ERROR_NONE, out)
          \<and> (\<forall>f\<in>set (meta Old_Struct_t). \<forall>f2\<in>set (meta Padded_Struct_t).
                type_id f2 = type_id f \<longrightarrow> field_bytes out f = field_bytes [0xAA, 0, 0xBB, 0xCC] f2))"
proof -
  have a1: "Get_Meta_Field_By_ID Old_Struct_t (type_id \<lparr>type_id = 2, offset = 2, size_f = 2\<rparr>) = None"
    by (simp add: eval_defs Old_Struct_t_def)
  have a2: "length ([\<lparr>type_id = 1, offset = 0, size_f = 1\<rparr>] @ \<lparr>type_id = 2, offset = 2, size_f = 2\<rparr> # []) < 2 ^ 32"
    by simp
  have b: "valid_schema Old_Struct_t \<and> non_overlapping Old_Struct_t \<and> valid_schema Padded_Struct_t
       \<and> stream_id Padded_Struct_t = stream_id Old_Struct_t
       \<and> length [0xAA, 0, 0xBB, 0xCC :: byte] = sizeof_struct Padded_Struct_t
       \<and> length [0 :: byte] = sizeof_struct Old_Struct_t
       \<and> frame_size Padded_Struct_t \<le> length (take 28 buffer0)"
    by (simp add: eval_defs Old_Struct_t_def Padded_Struct_t_def buffer0_def)
  have c: "\<forall>f\<in>set (meta Old_Struct_t). \<exists>f2\<in>set (meta Padded_Struct_t).
              type_id f2 = type_id f \<and> size_f f2 = size_f f"
    by (simp add: Old_Struct_t_def Padded_Struct_t_def)
  show ?thesis
    using unknown_descriptor_skipped [of Old_Struct_t "\<lparr>type_id = 2, offset = 2, size_f = 2\<rparr>"
        "[\<lparr>type_id = 1, offset = 0, size_f = 1\<rparr>]" "[]" 1 "[0xAA, 0, 0xBB, 0xCC]" "[0]"
        Padded_Struct_t "[0xAA, 0, 0xBB, 0xCC]" "take 28 buffer0"]
      a1 a2 b c
    by blast
qed

text \<open>
  C7. For a frame whose table has pairwise different ids and a struct whose members do not
  overlap, \<open>Deserialize\<close> gives the same result (error code and object, or out-of-bounds
  access) for every order of the table's entries, with the payload unchanged.
\<close>

theorem meta_order_independent:
  assumes "mset rs' = mset rs"
    and "distinct (map type_id rs)"
    and "length rs < 2 ^ 32"
    and "non_overlapping T"
  shows "Deserialize T (frame sid rs' payload) obj = Deserialize T (frame sid rs payload) obj"
proof -
  have "length rs' = length rs" using assms(1) by (rule mset_eq_length)
  then have len': "length rs' < 2 ^ 32" using assms(3) by simp
  show ?thesis
    unfolding Deserialize_frame [OF len'] Deserialize_frame [OF assms(3)]
      copy_fields_permuted [OF assms(1,2,4)] ..
qed

theorem meta_order_independent_witness:
  "mset [\<lparr>type_id = 2, offset = 2, size_f = 2\<rparr>, \<lparr>type_id = 1, offset = 0, size_f = 1\<rparr>]
     = mset (meta Padded_Struct_t)
   \<and> distinct (map type_id (meta Padded_Struct_t))
   \<and> length (meta Padded_Struct_t) < 2 ^ 32
   \<and> non_overlapping Padded_Struct_t
   \<and> Deserialize Padded_Struct_t
        (frame 1 [\<lparr>type_id = 2, offset = 2, size_f = 2\<rparr>, \<lparr>type_id = 1, offset = 0, size_f = 1\<rparr>]
           [1, 0xFF, 2, 3]) [0, 0, 0, 0]
       = Deserialize Padded_Struct_t (frame 1 (meta Padded_Struct_t) [1, 0xFF, 2, 3]) [0, 0, 0, 0]
   \<and> Deserialize Padded_Struct_t (frame 1 (meta Padded_Struct_t) [1, 0xFF, 2, 3]) [0, 0, 0, 0]
       = Some (SERIALIZER_DESERIALIZER_ERROR_NONE, [1, 0, 2, 3])"
proof -
  have h1: "mset [\<lparr>type_id = 2, offset = 2, size_f = 2\<rparr>, \<lparr>type_id = 1, offset = 0, size_f = 1\<rparr>]
     = mset (meta Padded_Struct_t)"
    by (simp add: Padded_Struct_t_def)
  have h2: "distinct (map type_id (meta Padded_Struct_t))"
    by (simp add: Padded_Struct_t_def)
  have h3: "length (meta Padded_Struct_t) < 2 ^ 32"
    by (simp add: Padded_Struct_t_def)
  have e: "Deserialize Padded_Struct_t (frame 1 (meta Padded_Struct_t) [1, 0xFF, 2, 3]) [0, 0, 0, 0]
       = Some (SERIALIZER_DESERIALIZER_ERROR_NONE, [1, 0, 2, 3])"
    by (simp add: eval_defs Padded_Struct_t_def)
  show ?thesis
    using meta_order_independent [OF h1 h2 h3 non_overlapping_Padded, of 1 "[1, 0xFF, 2, 3]" "[0, 0, 0, 0]"]
      h1 h2 h3 non_overlapping_Padded e
    by simp
qed

text \<open>
  C10. The loop handles the received descriptors in the order of the table. After the
  iteration for a descriptor \<open>r\<close> whose id the local table has, the local field holds the
  payload bytes at the offset of \<open>r\<close>, whatever earlier descriptors of the same id wrote
  there; the remaining iterations start from that object. When no later descriptor carries the
  id of \<open>r\<close>, these are the bytes of the field in the object returned.
\<close>

theorem last_occurrence_wins:
  assumes "Deserialize T buffer obj = Some (SERIALIZER_DESERIALIZER_ERROR_NONE, out)"
    and "received buffer = pre @ r # post"
    and "Get_Meta_Field_By_ID T (type_id r) = Some our"
  shows "\<exists>mid. Deserialize_from T buffer (received_obj_ptr buffer) (Suc (length pre)) 8 0 obj = Some mid
           \<and> field_bytes mid our
               = take (unat (size_f our)) (drop (received_obj_ptr buffer + unat (offset r)) buffer)
           \<and> Deserialize_from T buffer (received_obj_ptr buffer) (received_meta_size buffer)
                 (8 + 8 * Suc (length pre)) (Suc (length pre)) mid = Some out
           \<and> (non_overlapping T \<and> type_id r \<notin> type_id ` set post \<longrightarrow>
                field_bytes out our
                  = take (unat (size_f our)) (drop (received_obj_ptr buffer + unat (offset r)) buffer))"
proof -
  let ?rp = "received_obj_ptr buffer" and ?n = "received_meta_size buffer"
  let ?src = "take (unat (size_f our)) (drop (?rp + unat (offset r)) buffer)"
  let ?m = "Suc (length pre)"
  have C: "copy_fields T buffer ?rp (pre @ r # post) obj = Some out"
    using Deserialize_NONE(2) [OF assms(1)] assms(2) by simp
  have n: "?n = length pre + Suc (length post)"
    using assms(2) length_received_meta [of buffer ?n] by (simp add: received_def)
  have long: "\<not> length buffer < 8 + 8 * ?n"
    using Deserialize_NONE(3) [OF assms(1)] assms(2) by (simp add: received_obj_ptr_def)
  from C obtain o1 where 1: "copy_fields T buffer ?rp pre obj = Some o1"
    and 2: "copy_fields T buffer ?rp (r # post) o1 = Some out"
    by (auto simp: copy_fields_append split: option.splits)
  from 2 obtain mid where 3: "copy_field T buffer ?rp r o1 = Some mid"
    and 4: "copy_fields T buffer ?rp post mid = Some out"
    by (auto split: option.splits)
  have 5: "copy_fields T buffer ?rp (pre @ [r]) obj = Some mid"
    using 1 3 by (simp add: copy_fields_append)
  have fm: "field_bytes mid our = ?src"
    using 3 assms(3) by (simp add: copy_field_def field_bytes_def memcpy_field)
  have tk: "received_meta buffer ?m = pre @ [r]"
    using received_meta_take [of ?m ?n buffer] assms(2) n by (simp add: received_def)
  have A: "Deserialize_from T buffer ?rp ?m 8 0 obj = Some mid"
    using Deserialize_from_copy_fields [of 0 ?m T buffer ?rp obj] long n 5
    by (simp add: tk)
  have dr: "drop ?m (received_meta buffer ?n) = post"
    using assms(2) by (simp add: received_def)
  have le: "?m \<le> ?n" using n by simp
  have B: "Deserialize_from T buffer ?rp ?n (8 + 8 * ?m) ?m mid = Some out"
    using Deserialize_from_copy_fields [OF le, of T buffer ?rp mid] long 4
    by (simp add: dr)
  have L: "field_bytes out our = ?src" if "non_overlapping T" and "type_id r \<notin> type_id ` set post"
    using copy_fields_last [OF C assms(3) that] .
  show ?thesis
    using A fm B L by blast
qed

theorem last_occurrence_wins_witness:
  "Deserialize Old_Struct_t frame_dup [0] = Some (SERIALIZER_DESERIALIZER_ERROR_NONE, [0xBB])
   \<and> received frame_dup
        = [\<lparr>type_id = 1, offset = 0, size_f = 1\<rparr>] @ \<lparr>type_id = 1, offset = 1, size_f = 1\<rparr> # []
   \<and> Get_Meta_Field_By_ID Old_Struct_t (type_id \<lparr>type_id = 1, offset = 1, size_f = 1\<rparr>)
        = Some \<lparr>type_id = 1, offset = 0, size_f = 1\<rparr>
   \<and> non_overlapping Old_Struct_t
   \<and> type_id \<lparr>type_id = 1, offset = 1, size_f = 1\<rparr> \<notin> type_id ` set []
   \<and> field_bytes [0xBB] \<lparr>type_id = 1, offset = 0, size_f = 1\<rparr>
        = take 1 (drop (received_obj_ptr frame_dup + 1) frame_dup)
   \<and> take 1 (drop (received_obj_ptr frame_dup + 1) frame_dup) = [0xBB]"
proof -
  have no: "non_overlapping Old_Struct_t"
    by (simp add: eval_defs Old_Struct_t_def)
  have e: "take 1 (drop (received_obj_ptr frame_dup + 1) frame_dup) = [0xBB]"
    by (simp add: eval_defs frame_dup_def)
  show ?thesis
    using last_occurrence_wins [OF Deserialize_frame_dup received_frame_dup Get_Old]
      Deserialize_frame_dup received_frame_dup Get_Old no e
    by (simp add: field_bytes_def)
qed

section \<open>Fields declared with different sizes\<close>

text \<open>
  C2 does not hold of this code: the number of bytes copied is the size of the local
  descriptor, whatever size the received descriptor declares. A frame whose field 1 is one byte
  wide, decoded by a struct whose field 1 is two bytes wide, takes the second byte from behind
  the payload when the buffer has one, and reads outside the buffer when it has none.
\<close>

theorem size_mismatch_copies_local_size:
  "Deserialize Wide_Struct_t (frame_old @ [0xBB]) [0, 0]
      = Some (SERIALIZER_DESERIALIZER_ERROR_NONE, [0xAA, 0xBB])
   \<and> Deserialize Wide_Struct_t frame_old [0, 0] = None
   \<and> Serialize Old_Struct_t (frame_old @ [0xBB]) [0xAA] = Some (frame_old @ [0xBB])
   \<and> received (frame_old @ [0xBB]) = [\<lparr>type_id = 1, offset = 0, size_f = 1\<rparr>]"
  by (simp add: eval_defs Wide_Struct_t_def Old_Struct_t_def frame_old_def)

section \<open>Construction of the table\<close>

lemma create_meta_filter:
  "SERIALIZER_CREATE_META_IMPL fs
     = map (\<lambda>d. \<lparr>type_id = word_of_int (field_id d), offset = word_of_nat (offsetof_name d),
                  size_f = word_of_nat (sizeof_type d)\<rparr>) (filter enable fs)"
  by (induction fs) (simp_all add: SERIALIZER_CREATE_META_IMPL_def SERIALIZER_META_FIELD_def)

lemma Serialize_defined:
  assumes "frame_size T \<le> length buffer" and "length obj = sizeof_struct T"
  shows "\<exists>fr. Serialize T buffer obj = Some fr"
  using Serialize_frame [OF assms] by simp

lemma Deserialize_error_code:
  assumes "Deserialize T buffer obj = Some (e, out)"
  shows "(e = SERIALIZER_DESERIALIZER_ERROR_NONE \<or> e = SERIALIZER_DESERIALIZER_ERROR_STREAM_ID_MISMATCH)
       \<and> (e = SERIALIZER_DESERIALIZER_ERROR_STREAM_ID_MISMATCH
            \<longleftrightarrow> u32_of_bytes (take 4 buffer) \<noteq> stream_id T)"
  using assms
  by (auto simp: Deserialize_def load_def Let_def split: option.splits if_splits)

lemma Deserialize_frame_defined:
  assumes "length rs < 2 ^ 32" and "sid = stream_id T"
    and "\<forall>r\<in>set rs. \<forall>our. Get_Meta_Field_By_ID T (type_id r) = Some our \<longrightarrow>
           unat (offset our) + unat (size_f our) \<le> length obj
           \<and> unat (offset r) + unat (size_f our) \<le> length payload"
  shows "\<exists>out. Deserialize T (frame sid rs payload) obj = Some (SERIALIZER_DESERIALIZER_ERROR_NONE, out)"
proof -
  have "\<exists>out. copy_fields T payload 0 rs obj = Some out"
    unfolding copy_fields_Some_iff using assms(3) by simp
  then obtain out where "copy_fields T payload 0 rs obj = Some out" ..
  then show ?thesis
    using Deserialize_frame [OF assms(1), of T sid payload obj] assms(2) by simp
qed

text \<open>
  C8, as stated, fails: a field list with a repeated id yields a table, and both functions work
  with it, returning \<open>SERIALIZER_DESERIALIZER_ERROR_NONE\<close>; the first member receives the
  bytes of the second.
\<close>

theorem schema_construction_counterexample:
  "meta Dup_Struct_t = [\<lparr>type_id = 1, offset = 0, size_f = 4\<rparr>, \<lparr>type_id = 1, offset = 4, size_f = 4\<rparr>]
   \<and> \<not> distinct (map type_id (meta Dup_Struct_t))
   \<and> Serialize Dup_Struct_t (take 32 buffer0) [1, 2, 3, 4, 5, 6, 7, 8]
       = Some [1, 0, 0, 0, 2, 0, 0, 0, 1, 0, 0, 0, 0, 0, 4, 0, 1, 0, 0, 0, 4, 0, 4, 0,
               1, 2, 3, 4, 5, 6, 7, 8]
   \<and> Deserialize Dup_Struct_t
         [1, 0, 0, 0, 2, 0, 0, 0, 1, 0, 0, 0, 0, 0, 4, 0, 1, 0, 0, 0, 4, 0, 4, 0,
          1, 2, 3, 4, 5, 6, 7, 8] [0, 0, 0, 0, 0, 0, 0, 0]
       = Some (SERIALIZER_DESERIALIZER_ERROR_NONE, [5, 6, 7, 8, 0, 0, 0, 0])"
  by (simp add: eval_defs Dup_Struct_t_def DUP_FIELDS_def SERIALIZER_CREATE_META_IMPL_def
        SERIALIZER_META_FIELD_def buffer0_def)

text \<open>
  C8, amended. Construction never rejects: the table is the list of the descriptors of the
  enabled fields, in the order of the field list, whatever their ids, offsets and sizes, and the
  lookup returns the first descriptor of the table with the id asked for. Neither function
  checks the table. \<open>Serialize\<close> succeeds for every table, given a buffer with room and an
  object of the size of the struct. The error code \<open>Deserialize\<close> returns is
  \<open>SERIALIZER_DESERIALIZER_ERROR_NONE\<close> or
  \<open>SERIALIZER_DESERIALIZER_ERROR_STREAM_ID_MISMATCH\<close>, the latter exactly when the first
  word of the buffer differs from the stream id; and for a frame with the right stream id it
  returns \<open>SERIALIZER_DESERIALIZER_ERROR_NONE\<close> whenever every copy it performs stays inside
  the object and the payload, whatever the local and the received table.
\<close>

theorem schema_construction_unchecked:
  "SERIALIZER_CREATE_META_IMPL fs
     = map (\<lambda>d. \<lparr>type_id = word_of_int (field_id d), offset = word_of_nat (offsetof_name d),
                  size_f = word_of_nat (sizeof_type d)\<rparr>) (filter enable fs)
   \<and> (length (meta T) < 2 ^ 32 \<longrightarrow>
        Get_Meta_Field_By_ID T tid = find (\<lambda>f. type_id f = tid) (meta T))
   \<and> (frame_size T \<le> length buffer \<and> length obj = sizeof_struct T \<longrightarrow>
        (\<exists>fr. Serialize T buffer obj = Some fr))
   \<and> (Deserialize T buf ob = Some (e, out) \<longrightarrow>
        (e = SERIALIZER_DESERIALIZER_ERROR_NONE \<or> e = SERIALIZER_DESERIALIZER_ERROR_STREAM_ID_MISMATCH)
        \<and> (e = SERIALIZER_DESERIALIZER_ERROR_STREAM_ID_MISMATCH
             \<longleftrightarrow> u32_of_bytes (take 4 buf) \<noteq> stream_id T))
   \<and> (length rs < 2 ^ 32 \<and> sid = stream_id T
        \<and> (\<forall>r\<in>set rs. \<forall>our. Get_Meta_Field_By_ID T (type_id r) = Some our \<longrightarrow>
               unat (offset our) + unat (size_f our) \<le> length ob
               \<and> unat (offset r) + unat (size_f our) \<le> length payload) \<longrightarrow>
        (\<exists>out'. Deserialize T (frame sid rs payload) ob
                   = Some (SERIALIZER_DESERIALIZER_ERROR_NONE, out')))"
  using create_meta_filter [of fs] Get_find [of T tid] Serialize_defined [of T buffer obj]
    Deserialize_error_code [of T buf ob e out] Deserialize_frame_defined [of rs sid T ob payload]
  by blast

theorem schema_construction_unchecked_witness:
  "SERIALIZER_CREATE_META_IMPL DUP_FIELDS
     = [\<lparr>type_id = 1, offset = 0, size_f = 4\<rparr>, \<lparr>type_id = 1, offset = 4, size_f = 4\<rparr>]
   \<and> length (meta Dup_Struct_t) < 2 ^ 32
   \<and> Get_Meta_Field_By_ID Dup_Struct_t 1 = Some \<lparr>type_id = 1, offset = 0, size_f = 4\<rparr>
   \<and> frame_size Dup_Struct_t \<le> length (take 32 buffer0)
   \<and> length [1, 2, 3, 4, 5, 6, 7, 8 :: byte] = sizeof_struct Dup_Struct_t
   \<and> (\<exists>fr. Serialize Dup_Struct_t (take 32 buffer0) [1, 2, 3, 4, 5, 6, 7, 8] = Some fr)
   \<and> Deserialize Dup_Struct_t (frame 1 (meta Dup_Struct_t) [1, 2, 3, 4, 5, 6, 7, 8]) [9, 9, 9, 9, 9, 9, 9, 9]
        = Some (SERIALIZER_DESERIALIZER_ERROR_NONE, [5, 6, 7, 8, 9, 9, 9, 9])
   \<and> (SERIALIZER_DESERIALIZER_ERROR_NONE = SERIALIZER_DESERIALIZER_ERROR_STREAM_ID_MISMATCH
        \<longleftrightarrow> u32_of_bytes (take 4 (frame 1 (meta Dup_Struct_t) [1, 2, 3, 4, 5, 6, 7, 8]))
              \<noteq> stream_id Dup_Struct_t)
   \<and> length (meta Dup_Struct_t) < 2 ^ 32 \<and> (1 :: 32 word) = stream_id Dup_Struct_t
   \<and> (\<exists>out'. Deserialize Dup_Struct_t (frame 1 (meta Dup_Struct_t) [1, 2, 3, 4, 5, 6, 7, 8])
                 [9, 9, 9, 9, 9, 9, 9, 9] = Some (SERIALIZER_DESERIALIZER_ERROR_NONE, out'))"
proof -
  have m: "meta Dup_Struct_t
      = [\<lparr>type_id = 1, offset = 0, size_f = 4\<rparr>, \<lparr>type_id = 1, offset = 4, size_f = 4\<rparr>]"
    by (simp add: DUP_FIELDS_def Dup_Struct_t_def SERIALIZER_CREATE_META_IMPL_def SERIALIZER_META_FIELD_def)
  have l: "length (meta Dup_Struct_t) < 2 ^ 32" by (simp add: m)
  have r: "frame_size Dup_Struct_t \<le> length (take 32 buffer0)
      \<and> length [1, 2, 3, 4, 5, 6, 7, 8 :: byte] = sizeof_struct Dup_Struct_t"
    by (simp add: frame_size_def m buffer0_def) (simp add: Dup_Struct_t_def)
  have d: "Deserialize Dup_Struct_t (frame 1 (meta Dup_Struct_t) [1, 2, 3, 4, 5, 6, 7, 8])
             [9, 9, 9, 9, 9, 9, 9, 9]
        = Some (SERIALIZER_DESERIALIZER_ERROR_NONE, [5, 6, 7, 8, 9, 9, 9, 9])"
    unfolding m by (simp add: eval_defs Dup_Struct_t_def DUP_FIELDS_def SERIALIZER_CREATE_META_IMPL_def
        SERIALIZER_META_FIELD_def)
  have s: "(1 :: 32 word) = stream_id Dup_Struct_t" by (simp add: Dup_Struct_t_def)
  have g: "Get_Meta_Field_By_ID Dup_Struct_t tid = Some our \<Longrightarrow> our = \<lparr>type_id = 1, offset = 0, size_f = 4\<rparr>" for tid our
    using Get_find [OF l, of tid] by (auto simp: m split: if_splits)
  have b: "\<forall>r\<in>set (meta Dup_Struct_t). \<forall>our. Get_Meta_Field_By_ID Dup_Struct_t (type_id r) = Some our \<longrightarrow>
               unat (offset our) + unat (size_f our) \<le> length [9, 9, 9, 9, 9, 9, 9, 9 :: byte]
               \<and> unat (offset r) + unat (size_f our) \<le> length [1, 2, 3, 4, 5, 6, 7, 8 :: byte]"
    by (auto simp: m dest!: g)
  have f: "find (\<lambda>f. type_id f = 1) (meta Dup_Struct_t) = Some \<lparr>type_id = 1, offset = 0, size_f = 4\<rparr>"
    by (simp add: m)
  have c: "SERIALIZER_CREATE_META_IMPL DUP_FIELDS
     = [\<lparr>type_id = 1, offset = 0, size_f = 4\<rparr>, \<lparr>type_id = 1, offset = 4, size_f = 4\<rparr>]"
    by (simp add: DUP_FIELDS_def SERIALIZER_CREATE_META_IMPL_def SERIALIZER_META_FIELD_def)
  note T = schema_construction_unchecked [of DUP_FIELDS Dup_Struct_t 1 "take 32 buffer0"
        "[1, 2, 3, 4, 5, 6, 7, 8]" "frame 1 (meta Dup_Struct_t) [1, 2, 3, 4, 5, 6, 7, 8]"
        "[9, 9, 9, 9, 9, 9, 9, 9]" SERIALIZER_DESERIALIZER_ERROR_NONE "[5, 6, 7, 8, 9, 9, 9, 9]"
        "meta Dup_Struct_t" 1 "[1, 2, 3, 4, 5, 6, 7, 8]"]
  note T2 = T [THEN conjunct2, THEN conjunct1]
    and T3 = T [THEN conjunct2, THEN conjunct2, THEN conjunct1]
    and T4 = T [THEN conjunct2, THEN conjunct2, THEN conjunct2, THEN conjunct1]
    and T5 = T [THEN conjunct2, THEN conjunct2, THEN conjunct2, THEN conjunct2]
  have w2: "Get_Meta_Field_By_ID Dup_Struct_t 1 = Some \<lparr>type_id = 1, offset = 0, size_f = 4\<rparr>"
    using T2 [THEN mp, OF l] f by simp
  have w3: "\<exists>fr. Serialize Dup_Struct_t (take 32 buffer0) [1, 2, 3, 4, 5, 6, 7, 8] = Some fr"
    using T3 [THEN mp, OF r] .
  have w4: "SERIALIZER_DESERIALIZER_ERROR_NONE = SERIALIZER_DESERIALIZER_ERROR_STREAM_ID_MISMATCH
        \<longleftrightarrow> u32_of_bytes (take 4 (frame 1 (meta Dup_Struct_t) [1, 2, 3, 4, 5, 6, 7, 8]))
              \<noteq> stream_id Dup_Struct_t"
    using T4 [THEN mp, OF d, THEN conjunct2] .
  have pre: "length (meta Dup_Struct_t) < 2 ^ 32 \<and> (1 :: 32 word) = stream_id Dup_Struct_t
        \<and> (\<forall>r\<in>set (meta Dup_Struct_t). \<forall>our. Get_Meta_Field_By_ID Dup_Struct_t (type_id r) = Some our \<longrightarrow>
               unat (offset our) + unat (size_f our) \<le> length [9, 9, 9, 9, 9, 9, 9, 9 :: byte]
               \<and> unat (offset r) + unat (size_f our) \<le> length [1, 2, 3, 4, 5, 6, 7, 8 :: byte])"
    using l s b by (intro conjI)
  have w5: "\<exists>out'. Deserialize Dup_Struct_t (frame 1 (meta Dup_Struct_t) [1, 2, 3, 4, 5, 6, 7, 8])
                 [9, 9, 9, 9, 9, 9, 9, 9] = Some (SERIALIZER_DESERIALIZER_ERROR_NONE, out')"
    using T5 [THEN mp, OF pre] .
  from r have r1: "frame_size Dup_Struct_t \<le> length (take 32 buffer0)"
    and r2: "length [1, 2, 3, 4, 5, 6, 7, 8 :: byte] = sizeof_struct Dup_Struct_t" by blast+
  show ?thesis
    by (intro conjI) (fact c l w2 r1 r2 w3 d w4 s w5)+
qed

end
